theory Spec2Isabelle
  imports Complex_Main "HOL-Library.AList" "HOL-Library.Word"
begin

unbundle bit_operations_syntax

section \<open>Values that reach the service\<close>

text \<open>
  A Python float is a finite number, an infinity or a NaN. The finite ones are
  written as the real numbers they denote; the service compares floats with 0
  and does nothing else with them. Every comparison with a NaN is false.
\<close>

datatype pyfloat = Finite real | PosInf | NegInf | NaN

fun gt0 :: "pyfloat \<Rightarrow> bool" where
  "gt0 (Finite r) = (0 < r)"
| "gt0 PosInf = True"
| "gt0 NegInf = False"
| "gt0 NaN = False"

fun ge0 :: "pyfloat \<Rightarrow> bool" where
  "ge0 (Finite r) = (0 \<le> r)"
| "ge0 PosInf = True"
| "ge0 NegInf = False"
| "ge0 NaN = False"

fun is_finite :: "pyfloat \<Rightarrow> bool" where
  "is_finite (Finite r) = True"
| "is_finite PosInf = False"
| "is_finite NegInf = False"
| "is_finite NaN = False"

text \<open>
  A request body is the dictionary obtained from the JSON text: a map from field
  names to JSON values, the numbers already read as Python integers and floats
  (a literal too large for a float is read as an infinity, one too small as 0,
  every other as the float nearest to it). Any key may be absent, and any key
  may be present with the value null. Timestamps are points on a linear time
  axis.
\<close>

datatype json =
    JNull
  | JBool bool
  | JInt int
  | JFloat pyfloat
  | JStr string
  | JList "json list"
  | JObj "(string \<times> json) list"

type_synonym body = "string \<rightharpoonup> json"

type_synonym datetime = int

section \<open>The data model\<close>

text \<open>
  \<^verbatim>\<open>class ItemBase(BaseModel)\<close> with its five fields, and \<^verbatim>\<open>class Item(ItemBase)\<close>
  adding \<^verbatim>\<open>id\<close>, \<^verbatim>\<open>created_at\<close> and \<^verbatim>\<open>updated_at\<close>. Python attributes are
  dynamically typed and assignment to an attribute is not validated (the models
  do not enable validation on assignment), so every attribute that the update
  handler assigns can hold None: those fields are options here. The field
  \<^verbatim>\<open>id\<close> is written \<open>id'\<close>.
\<close>

record ItemBase =
  name :: "string option"
  description :: "string option"
  price :: "pyfloat option"
  tax :: "pyfloat option"
  tags :: "string list option"

record Item = ItemBase +
  id' :: string
  created_at :: datetime
  updated_at :: datetime

text \<open>
  \<^verbatim>\<open>class ItemUpdate(BaseModel)\<close>: every field is Optional with default None. An
  instance remembers which fields the caller supplied; the outer option is None
  for a field that was not supplied, and \<open>Some None\<close> for a field supplied as null.
\<close>

record ItemUpdate =
  upd_name :: "string option option"
  upd_description :: "string option option"
  upd_price :: "pyfloat option option"
  upd_tax :: "pyfloat option option"
  upd_tags :: "string list option option"

section \<open>Field validation\<close>

text \<open>
  What can be wrong with a value. \<open>at_index i e\<close> is the error \<open>e\<close> of the
  element \<open>i\<close> of a list.
\<close>

datatype ekind =
    missing
  | none_not_allowed
  | type_error
  | min_length nat
  | max_length nat
  | not_gt real
  | not_ge real
  | at_index nat ekind

text \<open>A validation error names the field it is about (its location) and what is wrong.\<close>

type_synonym verr = "string \<times> ekind"

text \<open>
  The type of a field: \<^verbatim>\<open>str\<close>, \<^verbatim>\<open>float\<close>, \<^verbatim>\<open>List[str]\<close>. A JSON string is
  read as a \<^verbatim>\<open>str\<close> and a JSON float as a \<^verbatim>\<open>float\<close>, unchanged. What the
  validation library makes of a value of another JSON type (it converts some,
  as a number written as a string, and refuses the others with a validation
  error) is not written in this repository: it is the parameter \<open>cv\<close> of
  everything below, and nothing is assumed about it. A string is the list of its
  characters, and its length the number of them.
\<close>

record conversions =
  conv_str :: "json \<Rightarrow> ekind + string"
  conv_float :: "json \<Rightarrow> ekind + pyfloat"

fun as_str :: "conversions \<Rightarrow> json \<Rightarrow> ekind + string" where
  "as_str cv (JStr s) = Inr s"
| "as_str cv j = conv_str cv j"

fun as_float :: "conversions \<Rightarrow> json \<Rightarrow> ekind + pyfloat" where
  "as_float cv (JFloat x) = Inr x"
| "as_float cv j = conv_float cv j"

text \<open>\<^verbatim>\<open>min_length=1, max_length=100\<close>, \<^verbatim>\<open>gt=0\<close> and \<^verbatim>\<open>ge=0\<close>.\<close>

definition check_name :: "string \<Rightarrow> ekind + string" where
  "check_name s =
     (if length s < 1 then Inl (min_length 1)
      else if 100 < length s then Inl (max_length 100)
      else Inr s)"

definition check_price :: "pyfloat \<Rightarrow> ekind + pyfloat" where
  "check_price x = (if gt0 x then Inr x else Inl (not_gt 0))"

definition check_tax :: "pyfloat \<Rightarrow> ekind + pyfloat" where
  "check_tax x = (if ge0 x then Inr x else Inl (not_ge 0))"

definition and_then :: "ekind + 'a \<Rightarrow> ('a \<Rightarrow> ekind + 'b) \<Rightarrow> ekind + 'b" where
  "and_then r f = (case r of Inl e \<Rightarrow> Inl e | Inr x \<Rightarrow> f x)"

text \<open>
  A field reports a list of errors, never empty: one error, except for a list,
  which reports one error for each bad element. Only a list is read as a list.
\<close>

definition one :: "ekind + 'a \<Rightarrow> ekind list + 'a" where
  "one r = (case r of Inl e \<Rightarrow> Inl [e] | Inr x \<Rightarrow> Inr x)"

fun elem_errors :: "nat \<Rightarrow> (ekind + string) list \<Rightarrow> ekind list" where
  "elem_errors i [] = []"
| "elem_errors i (Inl e # rs) = at_index i e # elem_errors (Suc i) rs"
| "elem_errors i (Inr s # rs) = elem_errors (Suc i) rs"

fun elem_values :: "(ekind + string) list \<Rightarrow> string list" where
  "elem_values [] = []"
| "elem_values (Inl e # rs) = elem_values rs"
| "elem_values (Inr s # rs) = s # elem_values rs"

fun as_str_list :: "conversions \<Rightarrow> json \<Rightarrow> ekind list + string list" where
  "as_str_list cv (JList js) =
     (let rs = map (as_str cv) js
      in if elem_errors 0 rs = [] then Inr (elem_values rs) else Inl (elem_errors 0 rs))"
| "as_str_list cv j = Inl [type_error]"

text \<open>
  The ways a model declares a field. A required field (\<^verbatim>\<open>Field(...)\<close> on a
  non-Optional type) must be present and not null. An Optional field with default
  None accepts absence and null; \<open>optional\<close> also records whether the field was
  supplied, \<open>nullable\<close> only yields the value. A field with another default
  (\<^verbatim>\<open>tags\<close>) accepts absence but not null.
\<close>

definition required :: "(json \<Rightarrow> ekind list + 'a) \<Rightarrow> json option \<Rightarrow> ekind list + 'a" where
  "required val v =
     (case v of None \<Rightarrow> Inl [missing]
      | Some j \<Rightarrow> if j = JNull then Inl [none_not_allowed] else val j)"

definition optional ::
  "(json \<Rightarrow> ekind list + 'a) \<Rightarrow> json option \<Rightarrow> ekind list + 'a option option" where
  "optional val v =
     (case v of None \<Rightarrow> Inr None
      | Some j \<Rightarrow>
          if j = JNull then Inr (Some None)
          else (case val j of Inl es \<Rightarrow> Inl es | Inr x \<Rightarrow> Inr (Some (Some x))))"

definition nullable :: "(json \<Rightarrow> ekind list + 'a) \<Rightarrow> json option \<Rightarrow> ekind list + 'a option" where
  "nullable val v =
     (case v of None \<Rightarrow> Inr None
      | Some j \<Rightarrow>
          if j = JNull then Inr None
          else (case val j of Inl es \<Rightarrow> Inl es | Inr x \<Rightarrow> Inr (Some x)))"

definition defaulted :: "'a \<Rightarrow> (json \<Rightarrow> ekind list + 'a) \<Rightarrow> json option \<Rightarrow> ekind list + 'a" where
  "defaulted d val v =
     (case v of None \<Rightarrow> Inr d
      | Some j \<Rightarrow> if j = JNull then Inl [none_not_allowed] else val j)"

definition errs_at :: "string \<Rightarrow> ekind list + 'a \<Rightarrow> verr list" where
  "errs_at loc r = (case r of Inl es \<Rightarrow> map (Pair loc) es | Inr _ \<Rightarrow> [])"

text \<open>The types and constraints of the five fields, as both models declare them.\<close>

definition name_value :: "conversions \<Rightarrow> json \<Rightarrow> ekind list + string" where
  "name_value cv j = one (and_then (as_str cv j) check_name)"

definition description_value :: "conversions \<Rightarrow> json \<Rightarrow> ekind list + string" where
  "description_value cv j = one (as_str cv j)"

definition price_value :: "conversions \<Rightarrow> json \<Rightarrow> ekind list + pyfloat" where
  "price_value cv j = one (and_then (as_float cv j) check_price)"

definition tax_value :: "conversions \<Rightarrow> json \<Rightarrow> ekind list + pyfloat" where
  "tax_value cv j = one (and_then (as_float cv j) check_tax)"

text \<open>The fields of \<^verbatim>\<open>ItemBase\<close> (and so of \<^verbatim>\<open>ItemCreate\<close>), in declaration order.\<close>

definition ItemBase_name :: "conversions \<Rightarrow> json option \<Rightarrow> ekind list + string" where
  "ItemBase_name cv = required (name_value cv)"

definition ItemBase_description :: "conversions \<Rightarrow> json option \<Rightarrow> ekind list + string option" where
  "ItemBase_description cv = nullable (description_value cv)"

definition ItemBase_price :: "conversions \<Rightarrow> json option \<Rightarrow> ekind list + pyfloat" where
  "ItemBase_price cv = required (price_value cv)"

definition ItemBase_tax :: "conversions \<Rightarrow> json option \<Rightarrow> ekind list + pyfloat option" where
  "ItemBase_tax cv = nullable (tax_value cv)"

definition ItemBase_tags :: "conversions \<Rightarrow> json option \<Rightarrow> ekind list + string list" where
  "ItemBase_tags cv = defaulted [] (as_str_list cv)"

text \<open>Every field is validated and every failure is reported.\<close>

definition ItemCreate_errors :: "conversions \<Rightarrow> body \<Rightarrow> verr list" where
  "ItemCreate_errors cv b =
     errs_at ''name'' (ItemBase_name cv (b ''name'')) @
     errs_at ''description'' (ItemBase_description cv (b ''description'')) @
     errs_at ''price'' (ItemBase_price cv (b ''price'')) @
     errs_at ''tax'' (ItemBase_tax cv (b ''tax'')) @
     errs_at ''tags'' (ItemBase_tags cv (b ''tags''))"

definition ItemCreate_parse :: "conversions \<Rightarrow> body \<Rightarrow> verr list + ItemBase" where
  "ItemCreate_parse cv b =
     (case (ItemBase_name cv (b ''name''), ItemBase_description cv (b ''description''),
            ItemBase_price cv (b ''price''), ItemBase_tax cv (b ''tax''),
            ItemBase_tags cv (b ''tags'')) of
        (Inr n, Inr d, Inr p, Inr t, Inr g) \<Rightarrow>
          Inr \<lparr>name = Some n, description = d, price = Some p, tax = t, tags = Some g\<rparr>
      | _ \<Rightarrow> Inl (ItemCreate_errors cv b))"

text \<open>The fields of \<^verbatim>\<open>ItemUpdate\<close>: the same constraints, every field Optional.\<close>

definition ItemUpdate_name :: "conversions \<Rightarrow> json option \<Rightarrow> ekind list + string option option" where
  "ItemUpdate_name cv = optional (name_value cv)"

definition ItemUpdate_description ::
  "conversions \<Rightarrow> json option \<Rightarrow> ekind list + string option option" where
  "ItemUpdate_description cv = optional (description_value cv)"

definition ItemUpdate_price :: "conversions \<Rightarrow> json option \<Rightarrow> ekind list + pyfloat option option" where
  "ItemUpdate_price cv = optional (price_value cv)"

definition ItemUpdate_tax :: "conversions \<Rightarrow> json option \<Rightarrow> ekind list + pyfloat option option" where
  "ItemUpdate_tax cv = optional (tax_value cv)"

definition ItemUpdate_tags ::
  "conversions \<Rightarrow> json option \<Rightarrow> ekind list + string list option option" where
  "ItemUpdate_tags cv = optional (as_str_list cv)"

definition ItemUpdate_errors :: "conversions \<Rightarrow> body \<Rightarrow> verr list" where
  "ItemUpdate_errors cv b =
     errs_at ''name'' (ItemUpdate_name cv (b ''name'')) @
     errs_at ''description'' (ItemUpdate_description cv (b ''description'')) @
     errs_at ''price'' (ItemUpdate_price cv (b ''price'')) @
     errs_at ''tax'' (ItemUpdate_tax cv (b ''tax'')) @
     errs_at ''tags'' (ItemUpdate_tags cv (b ''tags''))"

definition ItemUpdate_parse :: "conversions \<Rightarrow> body \<Rightarrow> verr list + ItemUpdate" where
  "ItemUpdate_parse cv b =
     (case (ItemUpdate_name cv (b ''name''), ItemUpdate_description cv (b ''description''),
            ItemUpdate_price cv (b ''price''), ItemUpdate_tax cv (b ''tax''),
            ItemUpdate_tags cv (b ''tags'')) of
        (Inr n, Inr d, Inr p, Inr t, Inr g) \<Rightarrow>
          Inr \<lparr>upd_name = n, upd_description = d, upd_price = p, upd_tax = t, upd_tags = g\<rparr>
      | _ \<Rightarrow> Inl (ItemUpdate_errors cv b))"

text \<open>
  Validating the fields of an \<^verbatim>\<open>Item\<close> that are held as Python values (when
  the constructor is called, and when a response is checked against the model):
  a required field must not be None, and every constraint must hold.
\<close>

definition Item_errors :: "'a ItemBase_scheme \<Rightarrow> verr list" where
  "Item_errors item =
     errs_at ''name''
       (one (case name item of None \<Rightarrow> Inl none_not_allowed | Some s \<Rightarrow> check_name s)) @
     errs_at ''price''
       (one (case price item of None \<Rightarrow> Inl none_not_allowed | Some x \<Rightarrow> check_price x)) @
     (case tax item of None \<Rightarrow> [] | Some x \<Rightarrow> errs_at ''tax'' (one (check_tax x))) @
     errs_at ''tags''
       (one (case tags item of None \<Rightarrow> Inl none_not_allowed | Some g \<Rightarrow> Inr g))"

section \<open>Errors and responses\<close>

text \<open>
  \<open>RequestValidationError\<close> is raised when a request body does not fit the declared
  model, before the handler runs, and is answered with status 422;
  \<open>HTTPException\<close> carries a status code and a detail message. Every other
  exception reaches the catch-all handler and is answered with status 500: the
  \<open>ValidationError\<close> of a model that does not validate (in a constructor, or
  when a response is checked), and the \<open>ValueError\<close> of writing a float that
  JSON cannot carry.
\<close>

datatype exn = ValidationError "verr list" | ValueError

datatype error =
    RequestValidationError "verr list"
  | HTTPException nat string
  | UnhandledException exn

text \<open>The exception handlers: the status code each error is answered with.\<close>

fun status_code :: "error \<Rightarrow> nat" where
  "status_code (RequestValidationError _) = 422"
| "status_code (HTTPException c _) = c"
| "status_code (UnhandledException _) = 500"

text \<open>
  \<^verbatim>\<open>response_model=Item\<close> and \<^verbatim>\<open>response_model=List[Item]\<close>: what a handler
  returns is validated against the model and then written as JSON, which has no
  infinity and no NaN.
\<close>

definition json_compliant :: "'a ItemBase_scheme \<Rightarrow> bool" where
  "json_compliant item =
     ((case price item of None \<Rightarrow> True | Some x \<Rightarrow> is_finite x) \<and>
      (case tax item of None \<Rightarrow> True | Some x \<Rightarrow> is_finite x))"

definition response_Items :: "Item list \<Rightarrow> error + Item list" where
  "response_Items items =
     (if concat (map Item_errors items) \<noteq> []
        then Inl (UnhandledException (ValidationError (concat (map Item_errors items))))
      else if \<not> list_all json_compliant items then Inl (UnhandledException ValueError)
      else Inr items)"

definition response_Item :: "Item \<Rightarrow> error + Item" where
  "response_Item item =
     (if Item_errors item \<noteq> [] then Inl (UnhandledException (ValidationError (Item_errors item)))
      else if \<not> json_compliant item then Inl (UnhandledException ValueError)
      else Inr item)"

section \<open>The registry\<close>

text \<open>
  \<^verbatim>\<open>items_db: Dict[str, Item] = {}\<close>. A Python dictionary keeps its keys in
  insertion order: assigning to a key that is present replaces the value in
  place, assigning to a new key appends, deleting removes the key. This is an
  association list with \<open>AList.update\<close> and \<open>AList.delete\<close>.
\<close>

type_synonym db = "(string \<times> Item) list"

definition items_db0 :: db where
  "items_db0 = []"

section \<open>Identifiers\<close>

text \<open>
  \<^verbatim>\<open>str(uuid.uuid4())\<close>: the UUID is a 128-bit number supplied by the random
  source; its string form is the 32 lower-case hexadecimal digits of the number,
  most significant first, grouped 8-4-4-4-12 with dashes.
\<close>

definition hex_digit :: "nat \<Rightarrow> char" where
  "hex_digit n = ''0123456789abcdef'' ! (n mod 16)"

definition hex32 :: "128 word \<Rightarrow> string" where
  "hex32 w = map (\<lambda>i. hex_digit (unat (drop_bit (4 * i) w AND 15))) (rev [0..<32])"

definition str_uuid :: "128 word \<Rightarrow> string" where
  "str_uuid u =
     (let hex = hex32 u
      in take 8 hex @ ''-'' @ take 4 (drop 8 hex) @ ''-'' @ take 4 (drop 12 hex) @ ''-'' @
         take 4 (drop 16 hex) @ ''-'' @ drop 20 hex)"

section \<open>The handlers\<close>

text \<open>
  Each handler with the response model of its route: the handler's effect on the
  registry is done when its return value is checked and written.
\<close>

definition not_found :: "string \<Rightarrow> error" where
  "not_found item_id = HTTPException 404 (''Item with ID '' @ item_id @ '' not found'')"

definition read_items :: "db \<Rightarrow> (error + Item list) \<times> db" where
  "read_items items_db = (response_Items (map snd items_db), items_db)"

definition read_item :: "string \<Rightarrow> db \<Rightarrow> (error + Item) \<times> db" where
  "read_item item_id items_db =
     (case map_of items_db item_id of
        None \<Rightarrow> (Inl (not_found item_id), items_db)
      | Some item \<Rightarrow> (response_Item item, items_db))"

definition create_item :: "ItemBase \<Rightarrow> 128 word \<Rightarrow> datetime \<Rightarrow> db \<Rightarrow> (error + Item) \<times> db" where
  "create_item item uuid4 current_time items_db =
     (let item_id = str_uuid uuid4
      in if Item_errors item \<noteq> []
         then (Inl (UnhandledException (ValidationError (Item_errors item))), items_db)
         else
           (let new_item = \<lparr>name = name item, description = description item, price = price item,
                            tax = tax item, tags = tags item,
                            id' = item_id, created_at = current_time, updated_at = current_time\<rparr>
            in (response_Item new_item, AList.update item_id new_item items_db)))"

text \<open>
  \<^verbatim>\<open>item_update.dict(exclude_unset=True)\<close>: the supplied fields with their values,
  in declaration order. One entry per supplied field.
\<close>

datatype assignment =
    Set_name "string option"
  | Set_description "string option"
  | Set_price "pyfloat option"
  | Set_tax "pyfloat option"
  | Set_tags "string list option"

definition dict_exclude_unset :: "ItemUpdate \<Rightarrow> assignment list" where
  "dict_exclude_unset u =
     (case upd_name u of None \<Rightarrow> [] | Some v \<Rightarrow> [Set_name v]) @
     (case upd_description u of None \<Rightarrow> [] | Some v \<Rightarrow> [Set_description v]) @
     (case upd_price u of None \<Rightarrow> [] | Some v \<Rightarrow> [Set_price v]) @
     (case upd_tax u of None \<Rightarrow> [] | Some v \<Rightarrow> [Set_tax v]) @
     (case upd_tags u of None \<Rightarrow> [] | Some v \<Rightarrow> [Set_tags v])"

fun setattr :: "Item \<Rightarrow> assignment \<Rightarrow> Item" where
  "setattr item (Set_name v) = item\<lparr>name := v\<rparr>"
| "setattr item (Set_description v) = item\<lparr>description := v\<rparr>"
| "setattr item (Set_price v) = item\<lparr>price := v\<rparr>"
| "setattr item (Set_tax v) = item\<lparr>tax := v\<rparr>"
| "setattr item (Set_tags v) = item\<lparr>tags := v\<rparr>"

definition update_item :: "string \<Rightarrow> ItemUpdate \<Rightarrow> datetime \<Rightarrow> db \<Rightarrow> (error + Item) \<times> db" where
  "update_item item_id item_update current_time items_db =
     (case map_of items_db item_id of
        None \<Rightarrow> (Inl (not_found item_id), items_db)
      | Some item_data \<Rightarrow>
          (let update_data = dict_exclude_unset item_update;
               item_data = foldl setattr item_data update_data;
               item_data = item_data\<lparr>updated_at := current_time\<rparr>
           in (response_Item item_data, AList.update item_id item_data items_db)))"

definition delete_item :: "string \<Rightarrow> db \<Rightarrow> (error + unit) \<times> db" where
  "delete_item item_id items_db =
     (case map_of items_db item_id of
        None \<Rightarrow> (Inl (not_found item_id), items_db)
      | Some _ \<Rightarrow> (Inr (), AList.delete item_id items_db))"

section \<open>The routes with a body\<close>

text \<open>
  A route with a body parameter first fits the body to the declared model; the
  handler runs only with an instance of the model.
\<close>

definition post_items ::
  "conversions \<Rightarrow> body \<Rightarrow> 128 word \<Rightarrow> datetime \<Rightarrow> db \<Rightarrow> (error + Item) \<times> db" where
  "post_items cv b uuid4 current_time items_db =
     (case ItemCreate_parse cv b of
        Inl errs \<Rightarrow> (Inl (RequestValidationError errs), items_db)
      | Inr item \<Rightarrow> create_item item uuid4 current_time items_db)"

definition put_items ::
  "conversions \<Rightarrow> string \<Rightarrow> body \<Rightarrow> datetime \<Rightarrow> db \<Rightarrow> (error + Item) \<times> db" where
  "put_items cv item_id b current_time items_db =
     (case ItemUpdate_parse cv b of
        Inl errs \<Rightarrow> (Inl (RequestValidationError errs), items_db)
      | Inr item_update \<Rightarrow> update_item item_id item_update current_time items_db)"

section \<open>Sequences of requests\<close>

text \<open>
  The service answers one request after another. A request carries what the
  environment supplies with it: the body, the UUID drawn for a creation, the
  current time.
\<close>

datatype request =
    List
  | Get string
  | Create body "128 word" datetime
  | Update string body datetime
  | Delete string

fun step :: "conversions \<Rightarrow> request \<Rightarrow> db \<Rightarrow> db" where
  "step cv List items_db = snd (read_items items_db)"
| "step cv (Get item_id) items_db = snd (read_item item_id items_db)"
| "step cv (Create b uuid4 current_time) items_db =
     snd (post_items cv b uuid4 current_time items_db)"
| "step cv (Update item_id b current_time) items_db =
     snd (put_items cv item_id b current_time items_db)"
| "step cv (Delete item_id) items_db = snd (delete_item item_id items_db)"

fun run :: "conversions \<Rightarrow> request list \<Rightarrow> db \<Rightarrow> db" where
  "run cv [] items_db = items_db"
| "run cv (r # rs) items_db = run cv rs (step cv r items_db)"

text \<open>
  Every key of the registry occurs once, and every item is stored under its own
  \<^verbatim>\<open>id\<close>.
\<close>

definition keyed :: "db \<Rightarrow> bool" where
  "keyed items_db = (distinct (map fst items_db) \<and> list_all (\<lambda>(k, item). id' item = k) items_db)"

text \<open>An item that its route can return: it validates and can be written as JSON.\<close>

definition presentable :: "Item \<Rightarrow> bool" where
  "presentable item = (Item_errors item = [] \<and> json_compliant item)"

section \<open>What the specification says, as definitions\<close>

text \<open>
  The schema of an item as the specification words it: the name is non-empty and
  at most 100 characters long, the price is strictly greater than 0, and the tax
  is at least 0 when present.
\<close>

definition satisfies_schema :: "Item \<Rightarrow> bool" where
  "satisfies_schema item =
     ((case name item of None \<Rightarrow> False | Some n \<Rightarrow> 1 \<le> length n \<and> length n \<le> 100) \<and>
      (case price item of None \<Rightarrow> False | Some p \<Rightarrow> gt0 p) \<and>
      (case tax item of None \<Rightarrow> True | Some t \<Rightarrow> ge0 t))"

text \<open>
  The value a field of an input has for the service: none when the key is absent,
  null, or holds something that is not read as a value of the field's type.
\<close>

definition reading :: "(json \<Rightarrow> 'e + 'a) \<Rightarrow> json option \<Rightarrow> 'a option" where
  "reading f v =
     (case v of None \<Rightarrow> None
      | Some j \<Rightarrow> if j = JNull then None else (case f j of Inl e \<Rightarrow> None | Inr x \<Rightarrow> Some x))"

definition unset_or_null :: "json option \<Rightarrow> bool" where
  "unset_or_null v = (v = None \<or> v = Some JNull)"

text \<open>
  When a creation input violates a field, in the specification's words: the name
  must be a string of 1 to 100 characters, the price a number greater than 0, the
  tax a number at least 0 if present; a description, if present, is a string and
  tags, if present, are a sequence of strings.
\<close>

definition name_ok :: "conversions \<Rightarrow> json option \<Rightarrow> bool" where
  "name_ok cv v =
     (case reading (as_str cv) v of None \<Rightarrow> False | Some s \<Rightarrow> 1 \<le> length s \<and> length s \<le> 100)"

definition description_ok :: "conversions \<Rightarrow> json option \<Rightarrow> bool" where
  "description_ok cv v = (unset_or_null v \<or> reading (as_str cv) v \<noteq> None)"

definition price_ok :: "conversions \<Rightarrow> json option \<Rightarrow> bool" where
  "price_ok cv v = (case reading (as_float cv) v of None \<Rightarrow> False | Some x \<Rightarrow> gt0 x)"

definition tax_ok :: "conversions \<Rightarrow> json option \<Rightarrow> bool" where
  "tax_ok cv v =
     (unset_or_null v \<or> (case reading (as_float cv) v of None \<Rightarrow> False | Some x \<Rightarrow> ge0 x))"

definition tags_ok :: "conversions \<Rightarrow> json option \<Rightarrow> bool" where
  "tags_ok cv v = (v = None \<or> reading (as_str_list cv) v \<noteq> None)"

definition violated_fields :: "conversions \<Rightarrow> body \<Rightarrow> string list" where
  "violated_fields cv b =
     (if name_ok cv (b ''name'') then [] else [''name'']) @
     (if description_ok cv (b ''description'') then [] else [''description'']) @
     (if price_ok cv (b ''price'') then [] else [''price'']) @
     (if tax_ok cv (b ''tax'') then [] else [''tax'']) @
     (if tags_ok cv (b ''tags'') then [] else [''tags''])"

text \<open>The errors that Create reports about fields the input contains.\<close>

definition create_errors_on :: "conversions \<Rightarrow> body \<Rightarrow> verr list" where
  "create_errors_on cv b = filter (\<lambda>e. b (fst e) \<noteq> None) (ItemCreate_errors cv b)"

text \<open>The fields a caller may supply; every other key of a body is unrecognized.\<close>

definition item_fields :: "string set" where
  "item_fields = {''name'', ''description'', ''price'', ''tax'', ''tags''}"

text \<open>
  The order in which ids were inserted: an accepted creation appends its new id,
  a deletion removes the id, nothing else touches the order.
\<close>

fun inserted_ids :: "conversions \<Rightarrow> request list \<Rightarrow> string list \<Rightarrow> string list" where
  "inserted_ids cv [] ids = ids"
| "inserted_ids cv (Create b uuid4 current_time # rs) ids =
     inserted_ids cv rs
       (if violated_fields cv b = [] \<and> str_uuid uuid4 \<notin> set ids then ids @ [str_uuid uuid4]
        else ids)"
| "inserted_ids cv (Delete item_id # rs) ids = inserted_ids cv rs (removeAll item_id ids)"
| "inserted_ids cv (r # rs) ids = inserted_ids cv rs ids"

text \<open>The UUIDs that the creations of a sequence of requests drew.\<close>

fun drawn :: "request list \<Rightarrow> 128 word list" where
  "drawn [] = []"
| "drawn (Create b uuid4 current_time # rs) = uuid4 # drawn rs"
| "drawn (r # rs) = drawn rs"

text \<open>A sequence of update requests, each with its id, body and time.\<close>

definition updates :: "(string \<times> body \<times> datetime) list \<Rightarrow> request list" where
  "updates us = map (\<lambda>(item_id, b, current_time). Update item_id b current_time) us"

text \<open>
  A body that gives none of the fields an \<^verbatim>\<open>Item\<close> requires the value null, and
  a body none of whose floats is read as an infinity.
\<close>

definition no_null :: "body \<Rightarrow> bool" where
  "no_null b =
     (b ''name'' \<noteq> Some JNull \<and> b ''price'' \<noteq> Some JNull \<and> b ''tags'' \<noteq> Some JNull)"

definition finite_floats :: "conversions \<Rightarrow> body \<Rightarrow> bool" where
  "finite_floats cv b =
     ((case reading (as_float cv) (b ''price'') of None \<Rightarrow> True | Some x \<Rightarrow> is_finite x) \<and>
      (case reading (as_float cv) (b ''tax'') of None \<Rightarrow> True | Some x \<Rightarrow> is_finite x))"

fun well_behaved :: "conversions \<Rightarrow> request \<Rightarrow> bool" where
  "well_behaved cv (Create b uuid4 current_time) = finite_floats cv b"
| "well_behaved cv (Update item_id b current_time) = (no_null b \<and> finite_floats cv b)"
| "well_behaved cv r = True"

section \<open>A worked scenario\<close>

text \<open>
  Create \<^verbatim>\<open>{name: "Widget", price: 9.99}\<close> at time 10 with the UUID of the
  source's own example; then requests on the created item. Every value of these
  bodies has the JSON type of its field, so no conversion takes place. Where a
  closed statement needs some conversions, \<open>strict\<close> converts nothing.
\<close>

text \<open>
  The decimal literals 9.99 and 0.01 are not floats: each is read as the float
  nearest to it.
\<close>

definition float_9_99 :: real where
  "float_9_99 = 5623870034678907 / 2 ^ 49"

definition float_0_01 :: real where
  "float_0_01 = 5764607523034235 / 2 ^ 59"

definition strict :: conversions where
  "strict = \<lparr>conv_str = (\<lambda>j. Inl type_error), conv_float = (\<lambda>j. Inl type_error)\<rparr>"

definition widget_body :: body where
  "widget_body = [''name'' \<mapsto> JStr ''Widget'', ''price'' \<mapsto> JFloat (Finite float_9_99)]"

definition widget_uuid :: "128 word" where
  "widget_uuid = 0x550e8400e29b41d4a716446655440000"

definition widget_id :: string where
  "widget_id = ''550e8400-e29b-41d4-a716-446655440000''"

definition widget :: Item where
  "widget = \<lparr>name = Some ''Widget'', description = None, price = Some (Finite float_9_99), tax = None,
             tags = Some [], id' = widget_id, created_at = 10, updated_at = 10\<rparr>"

definition price_patch :: body where
  "price_patch = [''price'' \<mapsto> JFloat (Finite 12.5)]"

definition null_name_patch :: body where
  "null_name_patch = [''name'' \<mapsto> JNull]"

definition negative_price_patch :: body where
  "negative_price_patch = [''price'' \<mapsto> JFloat (Finite (- 1))]"

definition gadget_uuid :: "128 word" where
  "gadget_uuid = 0x123e4567e89b42d3a456426614174000"

definition gadget_id :: string where
  "gadget_id = ''123e4567-e89b-42d3-a456-426614174000''"

definition gadget_body :: body where
  "gadget_body = [''name'' \<mapsto> JStr ''Gadget'', ''description'' \<mapsto> JStr ''A gadget'',
                  ''price'' \<mapsto> JFloat (Finite 5), ''tax'' \<mapsto> JFloat (Finite 0.5),
                  ''tags'' \<mapsto> JList [JStr ''tool'']]"

definition gadget :: Item where
  "gadget = \<lparr>name = Some ''Gadget'', description = Some ''A gadget'', price = Some (Finite 5),
             tax = Some (Finite 0.5), tags = Some [''tool''], id' = gadget_id,
             created_at = 15, updated_at = 15\<rparr>"


section \<open>Basic facts about the handlers\<close>

lemma setattr_frame [simp]:
  "id' (setattr item a) = id' item" "created_at (setattr item a) = created_at item"
  "updated_at (setattr item a) = updated_at item"
  by (cases a; simp)+

lemma foldl_setattr_frame [simp]:
  "id' (foldl setattr item as) = id' item"
  "created_at (foldl setattr item as) = created_at item"
  "updated_at (foldl setattr item as) = updated_at item"
  by (induction as arbitrary: item) simp_all

lemma foldl_setattr_fields:
  "name (foldl setattr item (dict_exclude_unset p)) = (case upd_name p of None \<Rightarrow> name item | Some v \<Rightarrow> v)"
  "description (foldl setattr item (dict_exclude_unset p)) = (case upd_description p of None \<Rightarrow> description item | Some v \<Rightarrow> v)"
  "price (foldl setattr item (dict_exclude_unset p)) = (case upd_price p of None \<Rightarrow> price item | Some v \<Rightarrow> v)"
  "tax (foldl setattr item (dict_exclude_unset p)) = (case upd_tax p of None \<Rightarrow> tax item | Some v \<Rightarrow> v)"
  "tags (foldl setattr item (dict_exclude_unset p)) = (case upd_tags p of None \<Rightarrow> tags item | Some v \<Rightarrow> v)"
  by (simp_all add: dict_exclude_unset_def split: option.splits)

lemma response_Item_Inr: "response_Item item = Inr x \<longleftrightarrow> x = item \<and> presentable item"
  by (auto simp: response_Item_def presentable_def)

lemma response_Item_presentable: "presentable item \<Longrightarrow> response_Item item = Inr item"
  by (simp add: response_Item_Inr)


lemma post_items_cases:
  "(\<exists>e. post_items cv b u t d = (Inl e, d)) \<or>
   (\<exists>item. post_items cv b u t d = (response_Item item, AList.update (str_uuid u) item d)
       \<and> id' item = str_uuid u \<and> created_at item = t \<and> updated_at item = t)"
  by (auto simp: post_items_def create_item_def Let_def split: sum.splits)

lemma put_items_cases:
  "(\<exists>e. put_items cv i b t d = (Inl e, d)) \<or>
   (\<exists>old new. map_of d i = Some old
       \<and> put_items cv i b t d = (response_Item new, AList.update i new d)
       \<and> id' new = id' old \<and> created_at new = created_at old \<and> updated_at new = t)"
  by (auto simp: put_items_def update_item_def Let_def split: sum.splits option.splits)

lemma delete_item_cases:
  "delete_item i d = (Inl (not_found i), d) \<and> map_of d i = None \<or>
   delete_item i d = (Inr (), AList.delete i d) \<and> map_of d i \<noteq> None"
  by (auto simp: delete_item_def split: option.splits)

lemma read_frame: "snd (read_items d) = d" "snd (read_item i d) = d"
  by (simp_all add: read_items_def read_item_def split: option.splits)

lemma post_items_snd:
  "snd (post_items cv b u t d) = d \<or>
   (\<exists>item. snd (post_items cv b u t d) = AList.update (str_uuid u) item d
       \<and> id' item = str_uuid u \<and> created_at item = t \<and> updated_at item = t)"
  using post_items_cases [of cv b u t d] by (elim disjE exE conjE) (simp, fastforce)

lemma put_items_snd:
  "snd (put_items cv i b t d) = d \<or>
   (\<exists>old new. map_of d i = Some old \<and> snd (put_items cv i b t d) = AList.update i new d
       \<and> id' new = id' old \<and> created_at new = created_at old \<and> updated_at new = t)"
  using put_items_cases [of cv i b t d] by (elim disjE exE conjE) (simp, fastforce)

lemma list_all_update: "list_all P d \<Longrightarrow> P (k, v) \<Longrightarrow> list_all P (AList.update k v d)"
  by (induction d) auto

lemma list_all_delete: "list_all P d \<Longrightarrow> list_all P (AList.delete k d)"
  by (induction d) auto

lemma list_all_map_of:
  "list_all (\<lambda>(k, item). P item) d \<Longrightarrow> map_of d i = Some v \<Longrightarrow> P v"
  by (induction d) (auto split: if_splits)

lemma keyed_update: "keyed d \<Longrightarrow> id' item = k \<Longrightarrow> keyed (AList.update k item d)"
  unfolding keyed_def by (simp add: distinct_update list_all_update)

lemma keyed_delete: "keyed d \<Longrightarrow> keyed (AList.delete k d)"
  unfolding keyed_def by (simp add: distinct_delete list_all_delete)

lemma keyed_map_of: "keyed d \<Longrightarrow> map_of d k = Some item \<Longrightarrow> id' item = k"
  unfolding keyed_def by (induction d) (auto split: if_splits)

lemma keyed_step: "keyed d \<Longrightarrow> keyed (step cv r d)"
proof (cases r)
  case (Create b u t)
  then show "keyed d \<Longrightarrow> keyed (step cv r d)"
    using post_items_snd [of cv b u t d] by (auto intro: keyed_update)
next
  case (Update i b t)
  then show "keyed d \<Longrightarrow> keyed (step cv r d)"
    using put_items_snd [of cv i b t d] by (auto intro!: keyed_update dest: keyed_map_of)
next
  case (Delete i)
  then show "keyed d \<Longrightarrow> keyed (step cv r d)"
    using delete_item_cases [of i d] by (auto intro: keyed_delete)
qed (simp_all add: read_frame)

lemma keyed_run: "keyed d \<Longrightarrow> keyed (run cv rs d)"
  by (induction rs arbitrary: d) (simp_all add: keyed_step)

lemma keyed_init: "keyed items_db0"
  by (simp add: keyed_def items_db0_def)

lemma keyed_reachable: "keyed (run cv rs items_db0)"
  by (rule keyed_run [OF keyed_init])


lemma map_of_absent: "k \<notin> fst ` set d \<Longrightarrow> map_of d k = None"
  by (simp add: map_of_eq_None_iff)

lemma keyed_ids: "keyed d \<Longrightarrow> id' ` set (map snd d) = fst ` set d"
  unfolding keyed_def by (induction d) auto

lemma keyed_pairs: "keyed d \<Longrightarrow> map (\<lambda>item. (id' item, item)) (map snd d) = d"
  unfolding keyed_def by (induction d) auto

lemma keyed_map_id: "keyed d \<Longrightarrow> map id' (map snd d) = map fst d"
  unfolding keyed_def by (induction d) auto


lemma map_of_update_other: "k \<noteq> i \<Longrightarrow> map_of (AList.update i v d) k = map_of d k"
  by (simp add: AList.update_conv')

lemma length_alist_update: "length (AList.update k v d) \<le> Suc (length d)"
  by (induction d) auto

lemma keys_update_present:
  assumes "map_of d k = Some v"
  shows "fst ` set (AList.update k w d) = fst ` set d"
proof -
  have "k \<in> fst ` set d" using assms by (metis map_of_eq_None_iff option.distinct(1))
  then show ?thesis by (simp add: AList.dom_update insert_absorb)
qed

lemma keys_delete: "fst ` set (AList.delete k d) = fst ` set d - {k}"
  by (induction d) auto

lemma update_fresh: "k \<notin> fst ` set d \<Longrightarrow> AList.update k v d = d @ [(k, v)]"
  by (induction d) auto

lemma run_updates_created_at:
  "map_of d k = Some item \<Longrightarrow>
   \<exists>item'. map_of (run cv (updates us) d) k = Some item' \<and> created_at item' = created_at item
       \<and> id' item' = id' item"
proof (induction us arbitrary: d item)
  case Nil
  then show ?case by (simp add: updates_def)
next
  case (Cons u us)
  obtain i b t where u: "u = (i, b, t)" by (cases u)
  from put_items_snd [of cv i b t d]
  have "\<exists>item1. map_of (step cv (Update i b t) d) k = Some item1
          \<and> created_at item1 = created_at item \<and> id' item1 = id' item"
  proof (elim disjE exE conjE)
    assume "snd (put_items cv i b t d) = d"
    with Cons.prems show ?thesis by simp
  next
    fix old new
    assume a: "map_of d i = Some old" "snd (put_items cv i b t d) = AList.update i new d"
      "id' new = id' old" "created_at new = created_at old"
    show ?thesis
    proof (cases "k = i")
      case True
      with a Cons.prems show ?thesis by (simp add: AList.update_conv')
    next
      case False
      with a Cons.prems show ?thesis by (simp add: AList.update_conv')
    qed
  qed
  then obtain item1 where "map_of (step cv (Update i b t) d) k = Some item1"
    "created_at item1 = created_at item" "id' item1 = id' item" by blast
  with Cons.IH [of "step cv (Update i b t) d" item1] show ?case
    by (simp add: updates_def u)
qed

lemma restrict_item_fields:
  "(b |` item_fields) ''name'' = b ''name''"
  "(b |` item_fields) ''description'' = b ''description''"
  "(b |` item_fields) ''price'' = b ''price''"
  "(b |` item_fields) ''tax'' = b ''tax''"
  "(b |` item_fields) ''tags'' = b ''tags''"
  by (simp_all add: item_fields_def)

lemma parse_restrict:
  "ItemCreate_parse cv (b |` item_fields) = ItemCreate_parse cv b"
  "ItemUpdate_parse cv (b |` item_fields) = ItemUpdate_parse cv b"
  unfolding ItemCreate_parse_def ItemCreate_errors_def ItemUpdate_parse_def ItemUpdate_errors_def
  by (simp_all only: restrict_item_fields)

lemma post_items_restrict:
  "post_items cv b uuid4 current_time items_db
     = post_items cv (b |` item_fields) uuid4 current_time items_db"
  unfolding post_items_def by (simp only: parse_restrict)

lemma put_items_restrict:
  "put_items cv item_id b current_time items_db
     = put_items cv item_id (b |` item_fields) current_time items_db"
  unfolding put_items_def by (simp only: parse_restrict)

lemma post_items_result:
  assumes "post_items cv b uuid4 current_time items_db = (Inr item, db')"
  shows "id' item = str_uuid uuid4 \<and> created_at item = current_time \<and>
    updated_at item = current_time \<and> map_of db' (str_uuid uuid4) = Some item \<and>
    db' = AList.update (str_uuid uuid4) item items_db \<and> presentable item"
proof -
  from post_items_cases [of cv b uuid4 current_time items_db]
  consider e where "post_items cv b uuid4 current_time items_db = (Inl e, items_db)"
    | item0 where "post_items cv b uuid4 current_time items_db
          = (response_Item item0, AList.update (str_uuid uuid4) item0 items_db)"
        "id' item0 = str_uuid uuid4" "created_at item0 = current_time"
        "updated_at item0 = current_time"
    by blast
  then show ?thesis
  proof cases
    case 1
    with assms show ?thesis by simp
  next
    case 2
    from assms 2(1) have "(response_Item item0, AList.update (str_uuid uuid4) item0 items_db)
        = ((Inr item, db') :: (error + Item) \<times> db)"
      by (metis)
    then have "response_Item item0 = Inr item" "db' = AList.update (str_uuid uuid4) item0 items_db"
      by auto
    moreover from this(1) have "item0 = item" "presentable item"
      by (simp_all add: response_Item_Inr)
    ultimately show ?thesis using 2 by (simp add: AList.update_conv')
  qed
qed

lemma put_items_result:
  assumes "map_of items_db item_id = Some old"
    and "put_items cv item_id b current_time items_db = (Inr new, db')"
  shows "id' new = id' old \<and> created_at new = created_at old \<and>
    updated_at new = current_time \<and> map_of db' item_id = Some new \<and>
    db' = AList.update item_id new items_db \<and> presentable new"
proof -
  from put_items_cases [of cv item_id b current_time items_db]
  consider e where "put_items cv item_id b current_time items_db = (Inl e, items_db)"
    | old0 new0 where "map_of items_db item_id = Some old0"
        "put_items cv item_id b current_time items_db
          = (response_Item new0, AList.update item_id new0 items_db)"
        "id' new0 = id' old0" "created_at new0 = created_at old0"
        "updated_at new0 = current_time"
    by blast
  then show ?thesis
  proof cases
    case 1
    with assms show ?thesis by simp
  next
    case 2
    from assms(2) 2(2) have "(response_Item new0, AList.update item_id new0 items_db)
        = ((Inr new, db') :: (error + Item) \<times> db)"
      by (metis)
    then have "response_Item new0 = Inr new" "db' = AList.update item_id new0 items_db"
      by auto
    moreover from this(1) have "new0 = new" "presentable new"
      by (simp_all add: response_Item_Inr)
    moreover have "old0 = old" using assms(1) 2(1) by simp
    ultimately show ?thesis using 2 by (simp add: AList.update_conv')
  qed
qed


section \<open>Validation, characterised\<close>

lemma one_simps [simp]: "one (Inl e) = Inl [e]" "one (Inr x) = Inr x"
  by (simp_all add: one_def)

lemma one_Inr [simp]: "one r = Inr x \<longleftrightarrow> r = Inr x"
  by (cases r) simp_all

lemma one_not_empty [simp]: "one r \<noteq> Inl []"
  by (cases r) simp_all

lemma and_then_Inr: "and_then r f = Inr y \<longleftrightarrow> (\<exists>x. r = Inr x \<and> f x = Inr y)"
  by (cases r) (simp_all add: and_then_def)

lemma check_name_Inr: "check_name s = Inr n \<longleftrightarrow> n = s \<and> 1 \<le> length s \<and> length s \<le> 100"
  by (cases s) (auto simp: check_name_def)

lemma check_price_Inr: "check_price x = Inr p \<longleftrightarrow> p = x \<and> gt0 x"
  by (auto simp: check_price_def)

lemma check_tax_Inr: "check_tax x = Inr t \<longleftrightarrow> t = x \<and> ge0 x"
  by (auto simp: check_tax_def)

lemma name_value_Inr:
  "name_value cv j = Inr n \<longleftrightarrow> as_str cv j = Inr n \<and> 1 \<le> length n \<and> length n \<le> 100"
  by (auto simp: name_value_def and_then_Inr check_name_Inr)

lemma description_value_Inr: "description_value cv j = Inr d \<longleftrightarrow> as_str cv j = Inr d"
  by (simp add: description_value_def)

lemma price_value_Inr: "price_value cv j = Inr p \<longleftrightarrow> as_float cv j = Inr p \<and> gt0 p"
  by (auto simp: price_value_def and_then_Inr check_price_Inr)

lemma tax_value_Inr: "tax_value cv j = Inr t \<longleftrightarrow> as_float cv j = Inr t \<and> ge0 t"
  by (auto simp: tax_value_def and_then_Inr check_tax_Inr)

lemma value_not_empty [simp]:
  "name_value cv j \<noteq> Inl []" "description_value cv j \<noteq> Inl []"
  "price_value cv j \<noteq> Inl []" "tax_value cv j \<noteq> Inl []"
  by (simp_all add: name_value_def description_value_def price_value_def tax_value_def)

lemma as_str_list_not_empty [simp]: "as_str_list cv j \<noteq> Inl []"
  by (cases j) (simp_all add: Let_def)

lemma reading_simps [simp]:
  "reading f None = None" "reading f (Some JNull) = None"
  by (simp_all add: reading_def)

lemma reading_value:
  "j \<noteq> JNull \<Longrightarrow> reading f (Some j) = (case f j of Inl e \<Rightarrow> None | Inr x \<Rightarrow> Some x)"
  by (simp add: reading_def)

lemma reading_Some:
  "reading f v = Some x \<longleftrightarrow> (\<exists>j. v = Some j \<and> j \<noteq> JNull \<and> f j = Inr x)"
  by (auto simp: reading_def split: option.splits sum.splits)

lemma reading_typed [simp]:
  "reading (as_str cv) (Some (JStr s)) = Some s"
  "reading (as_float cv) (Some (JFloat x)) = Some x"
  by (simp_all add: reading_def)

lemma elem_values_strings: "elem_values (map (as_str cv) (map JStr ss)) = ss"
  by (induction ss) simp_all

lemma elem_errors_strings: "elem_errors i (map (as_str cv) (map JStr ss)) = []"
  by (induction ss arbitrary: i) simp_all

lemma reading_typed_list [simp]:
  "reading (as_str_list cv) (Some (JList (map JStr ss))) = Some ss"
  by (simp add: reading_def elem_values_strings elem_errors_strings del: map_map)

lemma required_Inr:
  "required val v = Inr x \<longleftrightarrow> (\<exists>j. v = Some j \<and> j \<noteq> JNull \<and> val j = Inr x)"
  by (cases v) (simp_all add: required_def)

lemma nullable_Inr:
  "nullable val v = Inr t \<longleftrightarrow>
     unset_or_null v \<and> t = None
     \<or> (\<exists>j x. v = Some j \<and> j \<noteq> JNull \<and> val j = Inr x \<and> t = Some x)"
proof (cases v)
  case None
  then show ?thesis by (auto simp: nullable_def unset_or_null_def)
next
  case (Some j)
  then show ?thesis
    by (cases "val j") (auto simp: nullable_def unset_or_null_def)
qed

lemma defaulted_Inr:
  "defaulted d val v = Inr x \<longleftrightarrow>
     v = None \<and> x = d \<or> (\<exists>j. v = Some j \<and> j \<noteq> JNull \<and> val j = Inr x)"
  by (cases v) (auto simp: defaulted_def)

lemma optional_Inr:
  "optional val v = Inr t \<longleftrightarrow>
     v = None \<and> t = None \<or> v = Some JNull \<and> t = Some None
     \<or> (\<exists>j x. v = Some j \<and> j \<noteq> JNull \<and> val j = Inr x \<and> t = Some (Some x))"
proof (cases v)
  case None
  then show ?thesis by (auto simp: optional_def)
next
  case (Some j)
  then show ?thesis
    by (cases "val j") (auto simp: optional_def)
qed

lemma ItemBase_name_Inr:
  "ItemBase_name cv v = Inr n \<longleftrightarrow>
     reading (as_str cv) v = Some n \<and> 1 \<le> length n \<and> length n \<le> 100"
  by (auto simp: ItemBase_name_def required_Inr reading_Some name_value_Inr)

lemma ItemBase_price_Inr:
  "ItemBase_price cv v = Inr p \<longleftrightarrow> reading (as_float cv) v = Some p \<and> gt0 p"
  by (auto simp: ItemBase_price_def required_Inr reading_Some price_value_Inr)

lemma ItemBase_description_Inr:
  "ItemBase_description cv v = Inr d \<longleftrightarrow>
     (if unset_or_null v then d = None else d \<noteq> None \<and> reading (as_str cv) v = d)"
  by (auto simp: ItemBase_description_def nullable_Inr unset_or_null_def reading_Some
      description_value_Inr)

lemma ItemBase_tax_Inr:
  "ItemBase_tax cv v = Inr t \<longleftrightarrow>
     (if unset_or_null v then t = None
      else \<exists>x. t = Some x \<and> reading (as_float cv) v = Some x \<and> ge0 x)"
  by (auto simp: ItemBase_tax_def nullable_Inr unset_or_null_def reading_Some tax_value_Inr)

lemma ItemBase_tags_Inr:
  "ItemBase_tags cv v = Inr g \<longleftrightarrow>
     (if v = None then g = [] else reading (as_str_list cv) v = Some g)"
  by (auto simp: ItemBase_tags_def defaulted_Inr reading_Some)

lemma name_ok_iff: "name_ok cv v \<longleftrightarrow> (\<exists>n. ItemBase_name cv v = Inr n)"
  by (auto simp: name_ok_def ItemBase_name_Inr split: option.splits)

lemma price_ok_iff: "price_ok cv v \<longleftrightarrow> (\<exists>p. ItemBase_price cv v = Inr p)"
  by (auto simp: price_ok_def ItemBase_price_Inr split: option.splits)

lemma description_ok_iff: "description_ok cv v \<longleftrightarrow> (\<exists>d. ItemBase_description cv v = Inr d)"
  by (auto simp: description_ok_def ItemBase_description_Inr)

lemma tax_ok_iff: "tax_ok cv v \<longleftrightarrow> (\<exists>t. ItemBase_tax cv v = Inr t)"
  by (auto simp: tax_ok_def ItemBase_tax_Inr split: option.splits)

lemma tags_ok_iff: "tags_ok cv v \<longleftrightarrow> (\<exists>g. ItemBase_tags cv v = Inr g)"
  by (auto simp: tags_ok_def ItemBase_tags_Inr)

lemma field_not_empty [simp]:
  "ItemBase_name cv v \<noteq> Inl []" "ItemBase_description cv v \<noteq> Inl []"
  "ItemBase_price cv v \<noteq> Inl []" "ItemBase_tax cv v \<noteq> Inl []"
  "ItemBase_tags cv v \<noteq> Inl []"
  by (auto simp: ItemBase_name_def ItemBase_description_def ItemBase_price_def ItemBase_tax_def
      ItemBase_tags_def required_def nullable_def defaulted_def
      split: option.splits sum.splits if_splits)

lemma update_field_not_empty [simp]:
  "ItemUpdate_name cv v \<noteq> Inl []" "ItemUpdate_description cv v \<noteq> Inl []"
  "ItemUpdate_price cv v \<noteq> Inl []" "ItemUpdate_tax cv v \<noteq> Inl []"
  "ItemUpdate_tags cv v \<noteq> Inl []"
  by (auto simp: ItemUpdate_name_def ItemUpdate_description_def ItemUpdate_price_def
      ItemUpdate_tax_def ItemUpdate_tags_def optional_def
      split: option.splits sum.splits if_splits)

lemma isl_iff: "isl r \<longleftrightarrow> (\<nexists>x. r = Inr x)"
  by (cases r) simp_all

lemma errs_at_set: "r \<noteq> Inl [] \<Longrightarrow> fst ` set (errs_at l r) = (if isl r then {l} else {})"
proof (cases r)
  case (Inl es)
  assume "r \<noteq> Inl []"
  with Inl obtain e es' where "es = e # es'" by (cases es) auto
  with Inl show ?thesis by (auto simp: errs_at_def)
next
  case (Inr x)
  then show ?thesis by (simp add: errs_at_def)
qed

lemma errs_at_empty: "r \<noteq> Inl [] \<Longrightarrow> errs_at l r = [] \<longleftrightarrow> \<not> isl r"
  by (cases r) (auto simp: errs_at_def)

lemma errors_fields:
  "fst ` set (ItemCreate_errors cv b) = set (violated_fields cv b)"
proof -
  have n: "fst ` set (errs_at ''name'' (ItemBase_name cv (b ''name'')))
      = set (if name_ok cv (b ''name'') then [] else [''name''])"
    by (simp add: errs_at_set isl_iff name_ok_iff)
  have d: "fst ` set (errs_at ''description'' (ItemBase_description cv (b ''description'')))
      = set (if description_ok cv (b ''description'') then [] else [''description''])"
    by (simp add: errs_at_set isl_iff description_ok_iff)
  have p: "fst ` set (errs_at ''price'' (ItemBase_price cv (b ''price'')))
      = set (if price_ok cv (b ''price'') then [] else [''price''])"
    by (simp add: errs_at_set isl_iff price_ok_iff)
  have t: "fst ` set (errs_at ''tax'' (ItemBase_tax cv (b ''tax'')))
      = set (if tax_ok cv (b ''tax'') then [] else [''tax''])"
    by (simp add: errs_at_set isl_iff tax_ok_iff)
  have g: "fst ` set (errs_at ''tags'' (ItemBase_tags cv (b ''tags'')))
      = set (if tags_ok cv (b ''tags'') then [] else [''tags''])"
    by (simp add: errs_at_set isl_iff tags_ok_iff)
  show ?thesis
    unfolding ItemCreate_errors_def violated_fields_def
    by (simp only: set_append image_Un n d p t g)
qed

lemma errors_empty_iff: "ItemCreate_errors cv b = [] \<longleftrightarrow> violated_fields cv b = []"
  using errors_fields [of cv b] by (metis image_is_empty set_empty)

lemma parse_bad:
  assumes "violated_fields cv b \<noteq> []"
  shows "ItemCreate_parse cv b = Inl (ItemCreate_errors cv b)"
proof -
  from assms have "\<not> name_ok cv (b ''name'') \<or> \<not> description_ok cv (b ''description'')
      \<or> \<not> price_ok cv (b ''price'') \<or> \<not> tax_ok cv (b ''tax'') \<or> \<not> tags_ok cv (b ''tags'')"
    by (auto simp: violated_fields_def split: if_splits)
  then have "isl (ItemBase_name cv (b ''name''))
      \<or> isl (ItemBase_description cv (b ''description''))
      \<or> isl (ItemBase_price cv (b ''price'')) \<or> isl (ItemBase_tax cv (b ''tax''))
      \<or> isl (ItemBase_tags cv (b ''tags''))"
    by (simp add: isl_iff name_ok_iff description_ok_iff price_ok_iff tax_ok_iff tags_ok_iff)
  then show ?thesis
    unfolding ItemCreate_parse_def by (auto split: sum.splits)
qed

lemma parse_good:
  assumes "violated_fields cv b = []"
  shows "\<exists>n d p t g. ItemBase_name cv (b ''name'') = Inr n
      \<and> ItemBase_description cv (b ''description'') = Inr d
      \<and> ItemBase_price cv (b ''price'') = Inr p \<and> ItemBase_tax cv (b ''tax'') = Inr t
      \<and> ItemBase_tags cv (b ''tags'') = Inr g
      \<and> ItemCreate_parse cv b
          = Inr \<lparr>name = Some n, description = d, price = Some p, tax = t, tags = Some g\<rparr>"
proof -
  from assms have "name_ok cv (b ''name'')" "description_ok cv (b ''description'')"
    "price_ok cv (b ''price'')" "tax_ok cv (b ''tax'')" "tags_ok cv (b ''tags'')"
    by (auto simp: violated_fields_def split: if_splits)
  then obtain n d p t g where r: "ItemBase_name cv (b ''name'') = Inr n"
    "ItemBase_description cv (b ''description'') = Inr d"
    "ItemBase_price cv (b ''price'') = Inr p" "ItemBase_tax cv (b ''tax'') = Inr t"
    "ItemBase_tags cv (b ''tags'') = Inr g"
    unfolding name_ok_iff description_ok_iff price_ok_iff tax_ok_iff tags_ok_iff by blast
  then have "ItemCreate_parse cv b
      = Inr \<lparr>name = Some n, description = d, price = Some p, tax = t, tags = Some g\<rparr>"
    by (simp add: ItemCreate_parse_def)
  with r show ?thesis by blast
qed

lemma Item_errors_parsed:
  assumes "ItemBase_name cv vn = Inr n" "ItemBase_price cv vp = Inr p" "ItemBase_tax cv vt = Inr t"
    and "name item = Some n" "price item = Some p" "tax item = t" "tags item = Some g"
  shows "Item_errors item = []"
proof -
  have "check_name n = Inr n" using assms(1) by (simp add: ItemBase_name_Inr check_name_Inr)
  moreover have "check_price p = Inr p" using assms(2) by (simp add: ItemBase_price_Inr check_price_Inr)
  moreover have "(case t of None \<Rightarrow> [] | Some x \<Rightarrow> errs_at ''tax'' (one (check_tax x))) = []"
    using assms(3)
    by (auto simp: ItemBase_tax_Inr check_tax_def errs_at_def split: option.splits if_splits)
  ultimately show ?thesis using assms(4-7) by (simp add: Item_errors_def errs_at_def)
qed

lemma post_items_bad:
  assumes "violated_fields cv b \<noteq> []"
  shows "post_items cv b u ct db = (Inl (RequestValidationError (ItemCreate_errors cv b)), db)"
  by (simp add: post_items_def parse_bad [OF assms])

lemma post_items_good:
  assumes "violated_fields cv b = []"
  shows "\<exists>n d p t g. ItemBase_name cv (b ''name'') = Inr n
      \<and> ItemBase_description cv (b ''description'') = Inr d
      \<and> ItemBase_price cv (b ''price'') = Inr p \<and> ItemBase_tax cv (b ''tax'') = Inr t
      \<and> ItemBase_tags cv (b ''tags'') = Inr g
      \<and> post_items cv b u ct db
          = (response_Item
               \<lparr>name = Some n, description = d, price = Some p, tax = t, tags = Some g,
                id' = str_uuid u, created_at = ct, updated_at = ct\<rparr>,
             AList.update (str_uuid u)
               \<lparr>name = Some n, description = d, price = Some p, tax = t, tags = Some g,
                id' = str_uuid u, created_at = ct, updated_at = ct\<rparr> db)"
proof -
  from parse_good [OF assms] obtain n d p t g where r: "ItemBase_name cv (b ''name'') = Inr n"
    "ItemBase_description cv (b ''description'') = Inr d"
    "ItemBase_price cv (b ''price'') = Inr p" "ItemBase_tax cv (b ''tax'') = Inr t"
    "ItemBase_tags cv (b ''tags'') = Inr g"
    "ItemCreate_parse cv b
      = Inr \<lparr>name = Some n, description = d, price = Some p, tax = t, tags = Some g\<rparr>"
    by blast
  have "post_items cv b u ct db
          = (response_Item
               \<lparr>name = Some n, description = d, price = Some p, tax = t, tags = Some g,
                id' = str_uuid u, created_at = ct, updated_at = ct\<rparr>,
             AList.update (str_uuid u)
               \<lparr>name = Some n, description = d, price = Some p, tax = t, tags = Some g,
                id' = str_uuid u, created_at = ct, updated_at = ct\<rparr> db)"
  proof -
    have "Item_errors \<lparr>name = Some n, description = d, price = Some p, tax = t, tags = Some g\<rparr>
        = []"
      by (rule Item_errors_parsed [OF r(1) r(3) r(4)]) simp_all
    then show ?thesis by (simp add: post_items_def r(6) create_item_def Let_def)
  qed
  with r show ?thesis by blast
qed

lemma length_str_uuid: "length (str_uuid u) = 36"
  by (simp add: str_uuid_def hex32_def Let_def)


section \<open>Updates, characterised\<close>

lemma Item_errors_empty_iff:
  "Item_errors item = [] \<longleftrightarrow>
     (\<exists>n. name item = Some n \<and> 1 \<le> length n \<and> length n \<le> 100)
     \<and> (\<exists>p. price item = Some p \<and> gt0 p)
     \<and> (\<forall>x. tax item = Some x \<longrightarrow> ge0 x)
     \<and> tags item \<noteq> None"
proof -
  have n: "errs_at ''name''
      (one (case name item of None \<Rightarrow> Inl none_not_allowed | Some s \<Rightarrow> check_name s)) = []
      \<longleftrightarrow> (\<exists>n. name item = Some n \<and> 1 \<le> length n \<and> length n \<le> 100)"
    by (cases "name item") (auto simp: errs_at_empty isl_iff check_name_Inr)
  have p: "errs_at ''price''
      (one (case price item of None \<Rightarrow> Inl none_not_allowed | Some x \<Rightarrow> check_price x)) = []
      \<longleftrightarrow> (\<exists>p. price item = Some p \<and> gt0 p)"
    by (cases "price item") (auto simp: errs_at_empty isl_iff check_price_Inr)
  have t: "(case tax item of None \<Rightarrow> [] | Some x \<Rightarrow> errs_at ''tax'' (one (check_tax x))) = []
      \<longleftrightarrow> (\<forall>x. tax item = Some x \<longrightarrow> ge0 x)"
    by (cases "tax item") (auto simp: errs_at_empty isl_iff check_tax_Inr)
  have g: "errs_at ''tags''
      (one (case tags item of None \<Rightarrow> Inl none_not_allowed | Some g \<Rightarrow> Inr g)) = []
      \<longleftrightarrow> tags item \<noteq> None"
    by (cases "tags item") (auto simp: errs_at_empty isl_iff)
  show ?thesis
    unfolding Item_errors_def by (simp only: append_is_Nil_conv n p t g)
qed

lemma presentable_schema: "presentable item \<Longrightarrow> satisfies_schema item"
  by (auto simp: presentable_def Item_errors_empty_iff satisfies_schema_def split: option.splits)

lemma ItemUpdate_name_Inr:
  "ItemUpdate_name cv v = Inr x \<longleftrightarrow>
     x = (if v = None then None else Some (reading (as_str cv) v))
     \<and> (v = None \<or> v = Some JNull
        \<or> (\<exists>n. reading (as_str cv) v = Some n \<and> 1 \<le> length n \<and> length n \<le> 100))"
  by (auto simp: ItemUpdate_name_def optional_Inr reading_Some reading_value name_value_Inr)

lemma ItemUpdate_description_Inr:
  "ItemUpdate_description cv v = Inr x \<longleftrightarrow>
     x = (if v = None then None else Some (reading (as_str cv) v))
     \<and> (v = None \<or> v = Some JNull \<or> reading (as_str cv) v \<noteq> None)"
  by (auto simp: ItemUpdate_description_def optional_Inr reading_Some reading_value description_value_Inr)

lemma ItemUpdate_price_Inr:
  "ItemUpdate_price cv v = Inr x \<longleftrightarrow>
     x = (if v = None then None else Some (reading (as_float cv) v))
     \<and> (v = None \<or> v = Some JNull \<or> (\<exists>p. reading (as_float cv) v = Some p \<and> gt0 p))"
  by (auto simp: ItemUpdate_price_def optional_Inr reading_Some reading_value price_value_Inr)

lemma ItemUpdate_tax_Inr:
  "ItemUpdate_tax cv v = Inr x \<longleftrightarrow>
     x = (if v = None then None else Some (reading (as_float cv) v))
     \<and> (v = None \<or> v = Some JNull \<or> (\<exists>p. reading (as_float cv) v = Some p \<and> ge0 p))"
  by (auto simp: ItemUpdate_tax_def optional_Inr reading_Some reading_value tax_value_Inr)

lemma ItemUpdate_tags_Inr:
  "ItemUpdate_tags cv v = Inr x \<longleftrightarrow>
     x = (if v = None then None else Some (reading (as_str_list cv) v))
     \<and> (v = None \<or> v = Some JNull \<or> reading (as_str_list cv) v \<noteq> None)"
  by (auto simp: ItemUpdate_tags_def optional_Inr reading_Some reading_value)

lemma ItemUpdate_parse_Inr:
  "ItemUpdate_parse cv b = Inr p \<longleftrightarrow>
     ItemUpdate_name cv (b ''name'') = Inr (upd_name p)
     \<and> ItemUpdate_description cv (b ''description'') = Inr (upd_description p)
     \<and> ItemUpdate_price cv (b ''price'') = Inr (upd_price p)
     \<and> ItemUpdate_tax cv (b ''tax'') = Inr (upd_tax p)
     \<and> ItemUpdate_tags cv (b ''tags'') = Inr (upd_tags p)"
  by (cases p) (auto simp: ItemUpdate_parse_def split: sum.splits)

lemma ItemUpdate_parse_good:
  assumes "ItemUpdate_errors cv b = []"
  shows "\<exists>p. ItemUpdate_parse cv b = Inr p"
proof -
  from assms have "\<not> isl (ItemUpdate_name cv (b ''name''))"
    "\<not> isl (ItemUpdate_description cv (b ''description''))"
    "\<not> isl (ItemUpdate_price cv (b ''price''))" "\<not> isl (ItemUpdate_tax cv (b ''tax''))"
    "\<not> isl (ItemUpdate_tags cv (b ''tags''))"
    by (simp_all add: ItemUpdate_errors_def errs_at_empty)
  then show ?thesis
    by (auto simp: ItemUpdate_parse_def isl_iff)
qed

lemma ItemUpdate_parse_bad:
  assumes "ItemUpdate_errors cv b \<noteq> []"
  shows "ItemUpdate_parse cv b = Inl (ItemUpdate_errors cv b)"
proof -
  from assms have "isl (ItemUpdate_name cv (b ''name''))
      \<or> isl (ItemUpdate_description cv (b ''description''))
      \<or> isl (ItemUpdate_price cv (b ''price'')) \<or> isl (ItemUpdate_tax cv (b ''tax''))
      \<or> isl (ItemUpdate_tags cv (b ''tags''))"
    by (auto simp: ItemUpdate_errors_def errs_at_empty)
  then show ?thesis
    unfolding ItemUpdate_parse_def by (auto split: sum.splits)
qed


lemma put_items_bad:
  assumes "ItemUpdate_errors cv b \<noteq> []"
  shows "put_items cv i b t d = (Inl (RequestValidationError (ItemUpdate_errors cv b)), d)"
  by (simp add: put_items_def ItemUpdate_parse_bad [OF assms])

lemma put_items_absent:
  assumes "ItemUpdate_errors cv b = []" "map_of d i = None"
  shows "put_items cv i b t d = (Inl (not_found i), d)"
proof -
  from ItemUpdate_parse_good [OF assms(1)] obtain p where "ItemUpdate_parse cv b = Inr p" ..
  then show ?thesis using assms(2) by (simp add: put_items_def update_item_def)
qed

text \<open>What an accepted update stores: the stored item with the supplied fields assigned.\<close>

lemma put_items_good:
  assumes "ItemUpdate_errors cv b = []" "map_of d i = Some old"
  shows "\<exists>new. put_items cv i b t d = (response_Item new, AList.update i new d)
      \<and> name new = (if b ''name'' = None then name old else reading (as_str cv) (b ''name''))
      \<and> description new
          = (if b ''description'' = None then description old
             else reading (as_str cv) (b ''description''))
      \<and> price new = (if b ''price'' = None then price old else reading (as_float cv) (b ''price''))
      \<and> tax new = (if b ''tax'' = None then tax old else reading (as_float cv) (b ''tax''))
      \<and> tags new = (if b ''tags'' = None then tags old else reading (as_str_list cv) (b ''tags''))
      \<and> id' new = id' old \<and> created_at new = created_at old \<and> updated_at new = t"
proof -
  from ItemUpdate_parse_good [OF assms(1)] obtain p where p: "ItemUpdate_parse cv b = Inr p" ..
  let ?new = "(foldl setattr old (dict_exclude_unset p))\<lparr>updated_at := t\<rparr>"
  have 1: "put_items cv i b t d = (response_Item ?new, AList.update i ?new d)"
    using p assms(2) by (simp add: put_items_def update_item_def Let_def)
  from p have f: "upd_name p = (if b ''name'' = None then None else Some (reading (as_str cv) (b ''name'')))"
    "upd_description p
      = (if b ''description'' = None then None else Some (reading (as_str cv) (b ''description'')))"
    "upd_price p = (if b ''price'' = None then None else Some (reading (as_float cv) (b ''price'')))"
    "upd_tax p = (if b ''tax'' = None then None else Some (reading (as_float cv) (b ''tax'')))"
    "upd_tags p = (if b ''tags'' = None then None else Some (reading (as_str_list cv) (b ''tags'')))"
    by (simp_all add: ItemUpdate_parse_Inr ItemUpdate_name_Inr ItemUpdate_description_Inr
        ItemUpdate_price_Inr ItemUpdate_tax_Inr ItemUpdate_tags_Inr)
  have 2: "name ?new = (if b ''name'' = None then name old else reading (as_str cv) (b ''name''))"
    "description ?new
          = (if b ''description'' = None then description old
             else reading (as_str cv) (b ''description''))"
    "price ?new = (if b ''price'' = None then price old else reading (as_float cv) (b ''price''))"
    "tax ?new = (if b ''tax'' = None then tax old else reading (as_float cv) (b ''tax''))"
    "tags ?new = (if b ''tags'' = None then tags old else reading (as_str_list cv) (b ''tags''))"
    by (simp_all add: foldl_setattr_fields f)
  have 3: "id' ?new = id' old" "created_at ?new = created_at old" "updated_at ?new = t"
    by simp_all
  show ?thesis
    apply (rule exI [of _ ?new])
    using 1 2 3 by simp
qed

text \<open>What validation guarantees about the supplied values.\<close>

lemma update_values_valid:
  assumes "ItemUpdate_errors cv b = []"
  shows "b ''name'' = None \<or> b ''name'' = Some JNull
      \<or> (\<exists>n. reading (as_str cv) (b ''name'') = Some n \<and> 1 \<le> length n \<and> length n \<le> 100)"
    and "b ''price'' = None \<or> b ''price'' = Some JNull
      \<or> (\<exists>p. reading (as_float cv) (b ''price'') = Some p \<and> gt0 p)"
    and "b ''tax'' = None \<or> b ''tax'' = Some JNull
      \<or> (\<exists>p. reading (as_float cv) (b ''tax'') = Some p \<and> ge0 p)"
    and "b ''tags'' = None \<or> b ''tags'' = Some JNull
      \<or> reading (as_str_list cv) (b ''tags'') \<noteq> None"
proof -
  from ItemUpdate_parse_good [OF assms] obtain p where p: "ItemUpdate_parse cv b = Inr p" ..
  then show "b ''name'' = None \<or> b ''name'' = Some JNull
      \<or> (\<exists>n. reading (as_str cv) (b ''name'') = Some n \<and> 1 \<le> length n \<and> length n \<le> 100)"
    and "b ''price'' = None \<or> b ''price'' = Some JNull
      \<or> (\<exists>p. reading (as_float cv) (b ''price'') = Some p \<and> gt0 p)"
    and "b ''tax'' = None \<or> b ''tax'' = Some JNull
      \<or> (\<exists>p. reading (as_float cv) (b ''tax'') = Some p \<and> ge0 p)"
    and "b ''tags'' = None \<or> b ''tags'' = Some JNull
      \<or> reading (as_str_list cv) (b ''tags'') \<noteq> None"
    by (simp_all add: ItemUpdate_parse_Inr ItemUpdate_name_Inr ItemUpdate_price_Inr
        ItemUpdate_tax_Inr ItemUpdate_tags_Inr)
qed

lemma put_items_presentable:
  assumes "ItemUpdate_errors cv b = []" "map_of d i = Some old" "presentable old"
    and "no_null b" "finite_floats cv b"
    and "put_items cv i b t d = (r, AList.update i new d)"
    and "name new = (if b ''name'' = None then name old else reading (as_str cv) (b ''name''))"
    and "price new = (if b ''price'' = None then price old else reading (as_float cv) (b ''price''))"
    and "tax new = (if b ''tax'' = None then tax old else reading (as_float cv) (b ''tax''))"
    and "tags new = (if b ''tags'' = None then tags old else reading (as_str_list cv) (b ''tags''))"
  shows "presentable new"
proof -
  note v = update_values_valid [OF assms(1)]
  from assms(3) have o: "Item_errors old = []" "json_compliant old"
    by (simp_all add: presentable_def)
  from assms(4) have nn: "b ''name'' \<noteq> Some JNull" "b ''price'' \<noteq> Some JNull"
    "b ''tags'' \<noteq> Some JNull"
    by (simp_all add: no_null_def)
  have n: "\<exists>n. name new = Some n \<and> 1 \<le> length n \<and> length n \<le> 100"
    using v(1) nn(1) o(1) assms(7) by (auto simp: Item_errors_empty_iff)
  have p: "\<exists>p. price new = Some p \<and> gt0 p"
    using v(2) nn(2) o(1) assms(8) by (auto simp: Item_errors_empty_iff)
  have t: "\<forall>x. tax new = Some x \<longrightarrow> ge0 x"
    using v(3) o(1) assms(9) by (auto simp: Item_errors_empty_iff)
  have g: "tags new \<noteq> None"
    using v(4) nn(3) o(1) assms(10) by (auto simp: Item_errors_empty_iff)
  have j: "json_compliant new"
    using o(2) assms(5) assms(8) assms(9)
    by (auto simp: json_compliant_def finite_floats_def split: option.splits)
  from n p t g j show ?thesis
    by (simp add: presentable_def Item_errors_empty_iff)
qed

lemma post_items_presentable:
  assumes "violated_fields cv b = []" "finite_floats cv b"
  shows "\<exists>item. post_items cv b u t d = (Inr item, AList.update (str_uuid u) item d)
      \<and> presentable item"
proof -
  from post_items_good [OF assms(1), of u t d] obtain n ds p tx g where
    r: "ItemBase_name cv (b ''name'') = Inr n" "ItemBase_price cv (b ''price'') = Inr p"
      "ItemBase_tax cv (b ''tax'') = Inr tx"
      "post_items cv b u t d
          = (response_Item
               \<lparr>name = Some n, description = ds, price = Some p, tax = tx, tags = Some g,
                id' = str_uuid u, created_at = t, updated_at = t\<rparr>,
             AList.update (str_uuid u)
               \<lparr>name = Some n, description = ds, price = Some p, tax = tx, tags = Some g,
                id' = str_uuid u, created_at = t, updated_at = t\<rparr> d)"
    by blast
  let ?item = "\<lparr>name = Some n, description = ds, price = Some p, tax = tx, tags = Some g,
                id' = str_uuid u, created_at = t, updated_at = t\<rparr>"
  have "Item_errors ?item = []"
    by (rule Item_errors_parsed [OF r(1) r(2) r(3)]) simp_all
  moreover have "json_compliant ?item"
    using assms(2) r(2) r(3)
    by (auto simp: json_compliant_def finite_floats_def ItemBase_price_Inr ItemBase_tax_Inr
        unset_or_null_def split: option.splits if_splits)
  ultimately have "presentable ?item" by (simp add: presentable_def)
  with r(4) show ?thesis by (auto simp: response_Item_presentable)
qed


section \<open>The order of the registry, and what listing returns\<close>

lemma step_keys:
  assumes "keyed d"
  shows "map fst (step cv r d) = inserted_ids cv [r] (map fst d)"
proof (cases r)
  case (Create b u t)
  show ?thesis
  proof (cases "violated_fields cv b = []")
    case True
    from post_items_good [OF True, of u t d] obtain item x where
      "post_items cv b u t d = (x, AList.update (str_uuid u) item d)" by blast
    then show ?thesis using True Create by (simp add: AList.update_keys)
  next
    case False
    from post_items_bad [OF False, of u t d] show ?thesis using False Create by simp
  qed
next
  case (Update i b t)
  from put_items_snd [of cv i b t d] show ?thesis
  proof (elim disjE exE conjE)
    assume "snd (put_items cv i b t d) = d"
    then show ?thesis using Update by simp
  next
    fix old new
    assume "map_of d i = Some old" "snd (put_items cv i b t d) = AList.update i new d"
    moreover from this(1) have "i \<in> set (map fst d)"
      by (metis map_of_eq_None_iff option.distinct(1) set_map)
    ultimately show ?thesis using Update by (simp add: AList.update_keys)
  qed
next
  case (Delete i)
  from delete_item_cases [of i d] show ?thesis
  proof (elim disjE conjE)
    assume "delete_item i d = (Inl (not_found i), d)" "map_of d i = None"
    moreover from this(2) have "i \<notin> set (map fst d)" by (simp add: map_of_eq_None_iff)
    ultimately show ?thesis using Delete by simp
  next
    assume "delete_item i d = (Inr (), AList.delete i d)"
    then show ?thesis using Delete by (simp add: AList.delete_keys)
  qed
qed (simp_all add: read_frame)

lemma inserted_ids_Cons:
  "inserted_ids cv (r # rs) ids = inserted_ids cv rs (inserted_ids cv [r] ids)"
  by (cases r) simp_all

lemma run_keys: "keyed d \<Longrightarrow> map fst (run cv rs d) = inserted_ids cv rs (map fst d)"
proof (induction rs arbitrary: d)
  case Nil
  then show ?case by simp
next
  case (Cons r rs)
  from Cons.prems have "keyed (step cv r d)" by (rule keyed_step)
  from Cons.IH [OF this] step_keys [OF Cons.prems, of cv r]
  show ?case using inserted_ids_Cons [of cv r rs "map fst d"] by simp
qed

lemma response_Items_presentable:
  "list_all presentable items \<Longrightarrow> response_Items items = Inr items"
proof -
  assume a: "list_all presentable items"
  then have "concat (map Item_errors items) = []"
    by (induction items) (simp_all add: presentable_def)
  moreover from a have "list_all json_compliant items"
    by (induction items) (simp_all add: presentable_def)
  ultimately show ?thesis by (simp add: response_Items_def)
qed


lemma read_items_presentable:
  assumes "list_all (\<lambda>(k, item). presentable item) d"
  shows "read_items d = (Inr (map snd d), d)"
proof -
  from assms have "list_all presentable (map snd d)"
    by (induction d) auto
  then show ?thesis by (simp add: read_items_def response_Items_presentable)
qed

text \<open>Requests without null for a required field and without infinities keep every item presentable.\<close>

lemma step_presentable:
  assumes "list_all (\<lambda>(k, item). presentable item) d" "well_behaved cv r"
  shows "list_all (\<lambda>(k, item). presentable item) (step cv r d)"
proof (cases r)
  case (Create b u t)
  show ?thesis
  proof (cases "violated_fields cv b = []")
    case True
    from Create assms(2) have "finite_floats cv b" by simp
    from post_items_presentable [OF True this, of u t d] obtain item where
      "post_items cv b u t d = (Inr item, AList.update (str_uuid u) item d)" "presentable item"
      by blast
    with assms(1) Create show ?thesis by (simp add: list_all_update)
  next
    case False
    from post_items_bad [OF False, of u t d] assms(1) Create show ?thesis by simp
  qed
next
  case (Update i b t)
  show ?thesis
  proof (cases "ItemUpdate_errors cv b = []")
    case False
    from put_items_bad [OF False, of i t d] assms(1) Update show ?thesis by simp
  next
    case True
    show ?thesis
    proof (cases "map_of d i")
      case None
      from put_items_absent [OF True None, of t] assms(1) Update show ?thesis by simp
    next
      case (Some old)
      from put_items_good [OF True Some, of t] obtain new where
        n: "put_items cv i b t d = (response_Item new, AList.update i new d)"
          "name new = (if b ''name'' = None then name old else reading (as_str cv) (b ''name''))"
          "price new = (if b ''price'' = None then price old else reading (as_float cv) (b ''price''))"
          "tax new = (if b ''tax'' = None then tax old else reading (as_float cv) (b ''tax''))"
          "tags new = (if b ''tags'' = None then tags old else reading (as_str_list cv) (b ''tags''))"
        by blast
      from list_all_map_of [OF assms(1) Some] have o: "presentable old" .
      from Update assms(2) have w: "no_null b" "finite_floats cv b" by simp_all
      from put_items_presentable [OF True Some o w n] have "presentable new" .
      with assms(1) n(1) Update show ?thesis by (simp add: list_all_update)
    qed
  qed
next
  case (Delete i)
  from delete_item_cases [of i d] assms(1) Delete show ?thesis
    by (auto simp: list_all_delete)
qed (use assms(1) in \<open>simp_all add: read_frame\<close>)

lemma run_presentable:
  "list_all (\<lambda>(k, item). presentable item) d \<Longrightarrow> list_all (well_behaved cv) rs \<Longrightarrow>
   list_all (\<lambda>(k, item). presentable item) (run cv rs d)"
  by (induction rs arbitrary: d) (simp_all add: step_presentable)

lemma run_presentable_init:
  "list_all (well_behaved cv) rs \<Longrightarrow>
   list_all (\<lambda>(k, item). presentable item) (run cv rs items_db0)"
  by (rule run_presentable) (simp_all add: items_db0_def)

text \<open>In the states such requests reach, listing succeeds with every item, in insertion order.\<close>

lemma read_items_in_order:
  assumes "list_all (well_behaved cv) rs"
  shows "\<exists>items. read_items (run cv rs items_db0) = (Inr items, run cv rs items_db0)
     \<and> map (\<lambda>item. (id' item, item)) items = run cv rs items_db0
     \<and> distinct (map id' items)
     \<and> map id' items = inserted_ids cv rs []"
proof -
  let ?d = "run cv rs items_db0"
  have k: "keyed ?d" by (rule keyed_reachable)
  have "map id' (map snd ?d) = map fst ?d" by (rule keyed_map_id [OF k])
  moreover have "map fst ?d = inserted_ids cv rs []"
    using run_keys [OF keyed_init, of cv rs] by (simp add: items_db0_def)
  moreover have "distinct (map fst ?d)" using k by (simp add: keyed_def)
  ultimately show ?thesis
    using keyed_pairs [OF k] read_items_presentable [OF run_presentable_init [OF assms]]
    by simp
qed

section \<open>Where the two validations agree\<close>

lemma filter_errs_at:
  "filter (\<lambda>e. b (fst e) \<noteq> None) (errs_at l r) = (if b l = None then [] else errs_at l r)"
  by (cases r) (simp_all add: errs_at_def)

lemma update_errors_nonnull:
  assumes "no_null b"
  shows "ItemUpdate_errors cv b = create_errors_on cv b"
proof -
  from assms have nn: "b ''name'' \<noteq> Some JNull" "b ''price'' \<noteq> Some JNull"
    "b ''tags'' \<noteq> Some JNull"
    by (simp_all add: no_null_def)
  have n: "errs_at ''name'' (ItemUpdate_name cv (b ''name''))
      = (if b ''name'' = None then [] else errs_at ''name'' (ItemBase_name cv (b ''name'')))"
    using nn(1)
    by (auto simp: ItemUpdate_name_def ItemBase_name_def optional_def required_def
        errs_at_def split: option.splits sum.splits)
  have d: "errs_at ''description'' (ItemUpdate_description cv (b ''description''))
      = (if b ''description'' = None then []
         else errs_at ''description'' (ItemBase_description cv (b ''description'')))"
    by (auto simp: ItemUpdate_description_def ItemBase_description_def optional_def nullable_def
        errs_at_def split: option.splits sum.splits)
  have p: "errs_at ''price'' (ItemUpdate_price cv (b ''price''))
      = (if b ''price'' = None then [] else errs_at ''price'' (ItemBase_price cv (b ''price'')))"
    using nn(2)
    by (auto simp: ItemUpdate_price_def ItemBase_price_def optional_def required_def
        errs_at_def split: option.splits sum.splits)
  have t: "errs_at ''tax'' (ItemUpdate_tax cv (b ''tax''))
      = (if b ''tax'' = None then [] else errs_at ''tax'' (ItemBase_tax cv (b ''tax'')))"
    by (auto simp: ItemUpdate_tax_def ItemBase_tax_def optional_def nullable_def
        errs_at_def split: option.splits sum.splits)
  have g: "errs_at ''tags'' (ItemUpdate_tags cv (b ''tags''))
      = (if b ''tags'' = None then [] else errs_at ''tags'' (ItemBase_tags cv (b ''tags'')))"
    using nn(3)
    by (auto simp: ItemUpdate_tags_def ItemBase_tags_def optional_def defaulted_def
        errs_at_def split: option.splits sum.splits)
  show ?thesis
    unfolding ItemUpdate_errors_def create_errors_on_def ItemCreate_errors_def
    by (simp only: filter_append filter_errs_at n d p t g)
qed

section \<open>How a creation can end\<close>







section \<open>The scenario, evaluated\<close>

lemmas field_defs =
  ItemBase_name_def ItemBase_description_def ItemBase_price_def ItemBase_tax_def ItemBase_tags_def
  ItemUpdate_name_def ItemUpdate_description_def ItemUpdate_price_def ItemUpdate_tax_def
  ItemUpdate_tags_def name_value_def description_value_def price_value_def tax_value_def
  required_def optional_def nullable_def defaulted_def and_then_def
  check_name_def check_price_def check_tax_def errs_at_def

lemmas response_defs = response_Item_def response_Items_def Item_errors_def json_compliant_def

lemma float_literals [simp]: "0 < float_9_99" "0 < float_0_01"
  by (simp_all add: float_9_99_def float_0_01_def)

lemma str_widget_uuid: "str_uuid widget_uuid = widget_id"
  unfolding widget_uuid_def widget_id_def by code_simp

lemma str_gadget_uuid: "str_uuid gadget_uuid = gadget_id"
  unfolding gadget_uuid_def gadget_id_def by code_simp

lemma ids_differ: "widget_id \<noteq> gadget_id"
  by (simp add: widget_id_def gadget_id_def)


lemma parse_widget_body:
  "ItemCreate_parse cv widget_body
     = Inr \<lparr>name = Some ''Widget'', description = None, price = Some (Finite float_9_99), tax = None,
            tags = Some []\<rparr>"
  by (simp add: ItemCreate_parse_def widget_body_def field_defs)

lemma post_widget:
  "post_items cv widget_body widget_uuid 10 items_db0 = (Inr widget, [(widget_id, widget)])"
  by (simp add: post_items_def parse_widget_body create_item_def str_widget_uuid response_defs
      field_defs widget_def items_db0_def Let_def)

lemma parse_price_patch:
  "ItemUpdate_parse cv price_patch
     = Inr \<lparr>upd_name = None, upd_description = None, upd_price = Some (Some (Finite 12.5)),
            upd_tax = None, upd_tags = None\<rparr>"
  by (simp add: ItemUpdate_parse_def price_patch_def field_defs)

lemma parse_null_name_patch:
  "ItemUpdate_parse cv null_name_patch
     = Inr \<lparr>upd_name = Some None, upd_description = None, upd_price = None,
            upd_tax = None, upd_tags = None\<rparr>"
  by (simp add: ItemUpdate_parse_def null_name_patch_def field_defs)



lemma put_price_patch:
  "put_items cv widget_id price_patch 20 [(widget_id, widget)]
     = (Inr (widget\<lparr>price := Some (Finite 12.5), updated_at := 20\<rparr>),
        [(widget_id, widget\<lparr>price := Some (Finite 12.5), updated_at := 20\<rparr>)])"
  by (simp add: put_items_def parse_price_patch update_item_def dict_exclude_unset_def Let_def
      response_defs field_defs widget_def)

lemma put_null_name:
  "put_items cv widget_id null_name_patch 20 [(widget_id, widget)]
     = (Inl (UnhandledException (ValidationError [(''name'', none_not_allowed)])),
        [(widget_id, widget\<lparr>name := None, updated_at := 20\<rparr>)])"
  by (simp add: put_items_def parse_null_name_patch update_item_def dict_exclude_unset_def Let_def
      response_defs field_defs widget_def)


lemma read_items_null_name:
  "read_items [(widget_id, widget\<lparr>name := None, updated_at := 20\<rparr>)]
     = (Inl (UnhandledException (ValidationError [(''name'', none_not_allowed)])),
        [(widget_id, widget\<lparr>name := None, updated_at := 20\<rparr>)])"
  by (simp add: read_items_def response_defs field_defs widget_def)

lemma violated_widget: "violated_fields cv widget_body = []"
  by (simp add: violated_fields_def widget_body_def name_ok_def description_ok_def price_ok_def
      tax_ok_def tags_ok_def unset_or_null_def)

lemma violated_gadget: "violated_fields cv gadget_body = []"
proof -
  have "reading (as_str_list cv) (Some (JList (map JStr [''tool'']))) = Some [''tool'']"
    by (rule reading_typed_list)
  then show ?thesis
    by (simp add: violated_fields_def gadget_body_def name_ok_def description_ok_def price_ok_def
        tax_ok_def tags_ok_def unset_or_null_def)
qed


section \<open>Identifiers determine their UUIDs\<close>

lemma length_hex32: "length (hex32 u) = 32"
  by (simp add: hex32_def)

lemma hex_digit_inj: "m < 16 \<Longrightarrow> n < 16 \<Longrightarrow> hex_digit m = hex_digit n \<Longrightarrow> m = n"
proof -
  assume a: "m < 16" "n < 16" "hex_digit m = hex_digit n"
  have d: "distinct ''0123456789abcdef''" by simp
  have "length ''0123456789abcdef'' = 16" by simp
  with a d show ?thesis
    by (simp only: hex_digit_def mod_less nth_eq_iff_index_eq)
qed

lemma str_uuid_hex32: "str_uuid u = str_uuid v \<Longrightarrow> hex32 u = hex32 v"
proof -
  assume a: "str_uuid u = str_uuid v"
  let ?h = "hex32 u" and ?k = "hex32 v"
  have l: "length ?h = 32" "length ?k = 32" by (simp_all add: length_hex32)
  from a have "take 8 ?h = take 8 ?k \<and> take 4 (drop 8 ?h) = take 4 (drop 8 ?k)
      \<and> take 4 (drop 12 ?h) = take 4 (drop 12 ?k) \<and> take 4 (drop 16 ?h) = take 4 (drop 16 ?k)
      \<and> drop 20 ?h = drop 20 ?k"
    using l by (simp add: str_uuid_def Let_def)
  then have "take 8 ?h @ take 4 (drop 8 ?h) @ take 4 (drop 12 ?h) @ take 4 (drop 16 ?h) @ drop 20 ?h
     = take 8 ?k @ take 4 (drop 8 ?k) @ take 4 (drop 12 ?k) @ take 4 (drop 16 ?k) @ drop 20 ?k"
    by simp
  moreover have "take 8 xs @ take 4 (drop 8 xs) @ take 4 (drop 12 xs) @ take 4 (drop 16 xs) @ drop 20 xs = xs"
    for xs :: string
  proof -
    have "take 4 (drop 16 xs) @ drop 20 xs = drop 16 xs"
      using append_take_drop_id [of 4 "drop 16 xs"] by (simp add: add.commute)
    moreover have "take 4 (drop 12 xs) @ drop 16 xs = drop 12 xs"
      using append_take_drop_id [of 4 "drop 12 xs"] by (simp add: add.commute)
    moreover have "take 4 (drop 8 xs) @ drop 12 xs = drop 8 xs"
      using append_take_drop_id [of 4 "drop 8 xs"] by (simp add: add.commute)
    ultimately show ?thesis by simp
  qed
  ultimately show ?thesis by simp
qed

lemma nibble_less: "unat (drop_bit n (w :: 128 word) AND 15) < 16"
proof -
  have "drop_bit n w AND 15 \<le> 15" by (rule word_and_le1)
  then have "unat (drop_bit n w AND 15) \<le> unat (15 :: 128 word)" by (simp add: word_le_nat_alt)
  then show ?thesis by simp
qed

lemma hex32_nibbles:
  assumes "hex32 u = hex32 v" "i < 32"
  shows "drop_bit (4 * i) u AND 15 = drop_bit (4 * i) v AND (15 :: 128 word)"
proof -
  from assms(1) have "map (\<lambda>i. hex_digit (unat (drop_bit (4 * i) u AND 15))) [0..<32]
     = map (\<lambda>i. hex_digit (unat (drop_bit (4 * i) v AND 15))) [0..<32]"
    unfolding hex32_def rev_map [symmetric] by (simp only: rev_is_rev_conv)
  then have "hex_digit (unat (drop_bit (4 * i) u AND 15)) = hex_digit (unat (drop_bit (4 * i) v AND 15))"
    using assms(2) by (simp only: map_eq_conv) simp
  then have "unat (drop_bit (4 * i) u AND 15) = unat (drop_bit (4 * i) v AND 15)"
    by (rule hex_digit_inj [OF nibble_less nibble_less])
  then show ?thesis by (simp only: word_unat_eq_iff)
qed

lemma hex32_inj: "hex32 u = hex32 v \<Longrightarrow> u = v"
proof (rule bit_word_eqI)
  fix n assume h: "hex32 u = hex32 v" and n: "n < LENGTH(128)"
  let ?i = "n div 4" and ?j = "n mod 4"
  have i: "?i < 32" using n by simp
  have b15: "bit (15 :: 128 word) ?j"
  proof -
    have "?j < 4" by simp
    then have "bit (mask 4 :: 128 word) ?j" by (simp add: bit_mask_iff)
    moreover have "(mask 4 :: 128 word) = 15" by (simp add: mask_eq_exp_minus_1)
    ultimately show ?thesis by (simp only:)
  qed
  from hex32_nibbles [OF h i]
  have "bit (drop_bit (4 * ?i) u AND 15) ?j = bit (drop_bit (4 * ?i) v AND 15) ?j" by simp
  then have "bit u (4 * ?i + ?j) = bit v (4 * ?i + ?j)"
    using b15 by (simp add: bit_and_iff bit_drop_bit_eq)
  then show "bit u n = bit v n" by simp
qed

lemma str_uuid_inj: "str_uuid u = str_uuid v \<longleftrightarrow> u = v"
  using hex32_inj [OF str_uuid_hex32] by auto

text \<open>Every key of a reachable registry is the string of a UUID that a creation drew.\<close>

lemma step_keys_drawn:
  "fst ` set (step cv r d) \<subseteq> fst ` set d \<union> str_uuid ` set (drawn [r])"
proof (cases r)
  case List
  then show ?thesis by (simp add: read_frame)
next
  case (Get i)
  then show ?thesis by (simp add: read_frame)
next
  case (Create b u t)
  then show ?thesis
    using post_items_snd [of cv b u t d]
    by (elim disjE exE conjE) (auto simp: AList.dom_update)
next
  case (Update i b t)
  then show ?thesis
    using put_items_snd [of cv i b t d]
    by (elim disjE exE conjE) (simp_all add: keys_update_present)
next
  case (Delete i)
  then show ?thesis
    using delete_item_cases [of i d]
    by (elim disjE exE conjE) (auto simp: keys_delete)
qed

lemma drawn_Cons: "set (drawn (r # rs)) = set (drawn [r]) \<union> set (drawn rs)"
  by (cases r) simp_all

lemma run_keys_drawn:
  "fst ` set (run cv rs d) \<subseteq> fst ` set d \<union> str_uuid ` set (drawn rs)"
proof (induction rs arbitrary: d)
  case Nil
  then show ?case by simp
next
  case (Cons r rs)
  have "fst ` set (run cv (r # rs) d) \<subseteq> fst ` set (step cv r d) \<union> str_uuid ` set (drawn rs)"
    using Cons.IH [of "step cv r d"] by simp
  also have "\<dots> \<subseteq> (fst ` set d \<union> str_uuid ` set (drawn [r])) \<union> str_uuid ` set (drawn rs)"
    using step_keys_drawn [of cv r d] by blast
  also have "\<dots> = fst ` set d \<union> str_uuid ` set (drawn (r # rs))"
    by (simp only: drawn_Cons [of r rs] image_Un Un_assoc)
  finally show ?case .
qed

lemma undrawn_fresh:
  assumes "uuid4 \<notin> set (drawn rs)"
  shows "str_uuid uuid4 \<notin> fst ` set (run cv rs items_db0)"
proof
  assume "str_uuid uuid4 \<in> fst ` set (run cv rs items_db0)"
  with run_keys_drawn [of cv rs items_db0] have "str_uuid uuid4 \<in> str_uuid ` set (drawn rs)"
    by (auto simp: items_db0_def)
  then obtain u where "u \<in> set (drawn rs)" "str_uuid uuid4 = str_uuid u" by blast
  with assms show False by (simp add: str_uuid_inj)
qed

text \<open>What a valid creation with an unused id returns and stores.\<close>

lemma post_items_fresh:
  assumes "violated_fields cv b = []" and "finite_floats cv b"
    and "str_uuid uuid4 \<notin> fst ` set (run cv rs items_db0)"
  shows "\<exists>item. post_items cv b uuid4 current_time (run cv rs items_db0)
                  = (Inr item, run cv rs items_db0 @ [(id' item, item)])
           \<and> map_of (run cv rs items_db0 @ [(id' item, item)]) (id' item) = Some item
           \<and> id' item = str_uuid uuid4 \<and> length (id' item) = 36 \<and> id' item \<noteq> []
           \<and> id' item \<notin> id' ` set (map snd (run cv rs items_db0))
           \<and> created_at item = updated_at item \<and> created_at item = current_time
           \<and> name item \<noteq> None \<and> name item = reading (as_str cv) (b ''name'')
           \<and> description item = reading (as_str cv) (b ''description'')
           \<and> price item \<noteq> None \<and> price item = reading (as_float cv) (b ''price'')
           \<and> tax item = reading (as_float cv) (b ''tax'')
           \<and> tags item \<noteq> None
           \<and> tags item = (if b ''tags'' = None then Some []
                           else reading (as_str_list cv) (b ''tags''))"
proof -
  let ?d = "run cv rs items_db0"
  from post_items_good [OF assms(1), of uuid4 current_time ?d]
  obtain n d p t g where r: "ItemBase_name cv (b ''name'') = Inr n"
    "ItemBase_description cv (b ''description'') = Inr d"
    "ItemBase_price cv (b ''price'') = Inr p" "ItemBase_tax cv (b ''tax'') = Inr t"
    "ItemBase_tags cv (b ''tags'') = Inr g"
    "post_items cv b uuid4 current_time ?d
          = (response_Item
               \<lparr>name = Some n, description = d, price = Some p, tax = t, tags = Some g,
                id' = str_uuid uuid4, created_at = current_time, updated_at = current_time\<rparr>,
             AList.update (str_uuid uuid4)
               \<lparr>name = Some n, description = d, price = Some p, tax = t, tags = Some g,
                id' = str_uuid uuid4, created_at = current_time, updated_at = current_time\<rparr> ?d)"
    by blast
  let ?item = "\<lparr>name = Some n, description = d, price = Some p, tax = t, tags = Some g,
                  id' = str_uuid uuid4, created_at = current_time, updated_at = current_time\<rparr>"
  from post_items_presentable [OF assms(1) assms(2), of uuid4 current_time ?d] r(6)
  have "response_Item ?item = Inr ?item"
    by (auto simp: response_Item_Inr)
  then have 1: "post_items cv b uuid4 current_time ?d = (Inr ?item, ?d @ [(id' ?item, ?item)])"
    using r(6) by (simp add: update_fresh [OF assms(3)])
  have k: "keyed ?d" by (rule keyed_reachable)
  have 2: "map_of (?d @ [(id' ?item, ?item)]) (id' ?item) = Some ?item"
    using assms(3) by (simp add: map_add_Some_iff map_of_absent)
  have 3: "id' ?item = str_uuid uuid4" "length (id' ?item) = 36" "id' ?item \<noteq> []"
    using length_str_uuid [of uuid4] by auto
  have 4: "id' ?item \<notin> id' ` set (map snd ?d)"
    using assms(3) keyed_ids [OF k] by simp
  have 5: "name ?item \<noteq> None" "name ?item = reading (as_str cv) (b ''name'')"
    using r(1) by (simp_all add: ItemBase_name_Inr)
  have 6: "price ?item \<noteq> None" "price ?item = reading (as_float cv) (b ''price'')"
    using r(3) by (simp_all add: ItemBase_price_Inr)
  have 7: "description ?item = reading (as_str cv) (b ''description'')"
    using r(2) by (auto simp: ItemBase_description_Inr unset_or_null_def split: if_splits)
  have 8: "tax ?item = reading (as_float cv) (b ''tax'')"
    using r(4) by (auto simp: ItemBase_tax_Inr unset_or_null_def split: if_splits)
  have 9: "tags ?item \<noteq> None"
    "tags ?item = (if b ''tags'' = None then Some []
                           else reading (as_str_list cv) (b ''tags''))"
    using r(5) by (auto simp: ItemBase_tags_Inr split: if_splits)
  have t: "created_at ?item = updated_at ?item" "created_at ?item = current_time"
    by simp_all
  show ?thesis
    by (intro exI [of _ ?item] conjI)
       (fact 1 2 3 4 5 6 7 8 9 t)+
qed

section \<open>The claims\<close>





text \<open>
  Claim C2, at the input where the code departs from it. Creating the widget
  and then updating it with the body \<^verbatim>\<open>{"name": null}\<close> leaves in the registry
  an item without a name: the created item satisfies the schema, the stored item
  after the update does not.
\<close>

theorem null_name_breaks_schema:
  "run cv [Create widget_body widget_uuid 10, Update widget_id null_name_patch 20] items_db0
     = [(widget_id, widget\<lparr>name := None, updated_at := 20\<rparr>)]
   \<and> satisfies_schema widget
   \<and> \<not> satisfies_schema (widget\<lparr>name := None, updated_at := 20\<rparr>)"
  by (simp add: post_widget put_null_name satisfies_schema_def) (simp add: widget_def)

text \<open>
  Claim C3, at the input where the code departs from it. The body
  \<^verbatim>\<open>{"name": null}\<close> passes the validation of Update, and the update is
  carried out (the registry holds the item without its name; the response, which
  must fit the \<^verbatim>\<open>Item\<close> model, is an internal error and not a validation
  error), while Create reports an error for the field \<open>name\<close> of that same
  body.
\<close>

theorem null_accepted_by_update_only:
  "ItemUpdate_errors cv null_name_patch = []
   \<and> create_errors_on cv null_name_patch = [(''name'', none_not_allowed)]
   \<and> put_items cv widget_id null_name_patch 20 [(widget_id, widget)]
       = (Inl (UnhandledException (ValidationError [(''name'', none_not_allowed)])),
          [(widget_id, widget\<lparr>name := None, updated_at := 20\<rparr>)])"
  by (simp add: put_null_name)
     (simp add: ItemUpdate_errors_def create_errors_on_def ItemCreate_errors_def
       null_name_patch_def field_defs)


text \<open>
  Claim C4, refuted as stated: the service does not compare a generated id with
  the ids it holds. When the UUID drawn for the gadget is the one the widget was
  created with, the returned item has the id of the item already in the registry,
  and replaces it.
\<close>

theorem create_item_fresh_counterexample:
  "post_items strict gadget_body widget_uuid 15 [(widget_id, widget)]
     = (Inr (gadget\<lparr>id' := widget_id\<rparr>), [(widget_id, gadget\<lparr>id' := widget_id\<rparr>)])
   \<and> id' (gadget\<lparr>id' := widget_id\<rparr>) = id' widget
   \<and> gadget\<lparr>id' := widget_id\<rparr> \<noteq> widget"
  by (simp add: post_items_def ItemCreate_parse_def gadget_body_def field_defs create_item_def
      str_widget_uuid response_defs gadget_def widget_def Let_def)

text \<open>
  Claim C4, amended. The string of a UUID determines the UUID, and in any state
  the service reaches the string of a UUID that no earlier creation drew is not
  a key of the registry. In such a state, a creation whose fields are all valid
  and hold no infinite number, with a generated UUID whose string is not yet a
  key of the registry, returns an item whose id is the 36-character string of
  the UUID, non-empty and different from the id of every item already held,
  whose \<open>created_at\<close> equals its \<open>updated_at\<close> (the current time), and whose
  name, description, price, tax and tags are those the input gives, tags being
  the empty sequence when omitted; the item is stored under its id, after the
  entries already there.
\<close>

theorem create_item_fresh:
  assumes "violated_fields cv b = []" and "finite_floats cv b"
  shows "(\<forall>u. str_uuid u = str_uuid uuid4 \<longrightarrow> u = uuid4)
     \<and> (uuid4 \<notin> set (drawn rs) \<longrightarrow> str_uuid uuid4 \<notin> fst ` set (run cv rs items_db0))
     \<and> (str_uuid uuid4 \<notin> fst ` set (run cv rs items_db0) \<longrightarrow>
         (\<exists>item. post_items cv b uuid4 current_time (run cv rs items_db0)
                  = (Inr item, run cv rs items_db0 @ [(id' item, item)])
           \<and> map_of (run cv rs items_db0 @ [(id' item, item)]) (id' item) = Some item
           \<and> id' item = str_uuid uuid4 \<and> length (id' item) = 36 \<and> id' item \<noteq> []
           \<and> id' item \<notin> id' ` set (map snd (run cv rs items_db0))
           \<and> created_at item = updated_at item \<and> created_at item = current_time
           \<and> name item \<noteq> None \<and> name item = reading (as_str cv) (b ''name'')
           \<and> description item = reading (as_str cv) (b ''description'')
           \<and> price item \<noteq> None \<and> price item = reading (as_float cv) (b ''price'')
           \<and> tax item = reading (as_float cv) (b ''tax'')
           \<and> tags item \<noteq> None
           \<and> tags item = (if b ''tags'' = None then Some []
                           else reading (as_str_list cv) (b ''tags''))))"
proof (intro conjI allI impI)
  fix u assume "str_uuid u = str_uuid uuid4"
  then show "u = uuid4" by (simp only: str_uuid_inj)
next
  assume "uuid4 \<notin> set (drawn rs)"
  then show "str_uuid uuid4 \<notin> fst ` set (run cv rs items_db0)" by (rule undrawn_fresh)
next
  assume "str_uuid uuid4 \<notin> fst ` set (run cv rs items_db0)"
  from post_items_fresh [OF assms this]
  show "\<exists>item. post_items cv b uuid4 current_time (run cv rs items_db0)
                  = (Inr item, run cv rs items_db0 @ [(id' item, item)])
           \<and> map_of (run cv rs items_db0 @ [(id' item, item)]) (id' item) = Some item
           \<and> id' item = str_uuid uuid4 \<and> length (id' item) = 36 \<and> id' item \<noteq> []
           \<and> id' item \<notin> id' ` set (map snd (run cv rs items_db0))
           \<and> created_at item = updated_at item \<and> created_at item = current_time
           \<and> name item \<noteq> None \<and> name item = reading (as_str cv) (b ''name'')
           \<and> description item = reading (as_str cv) (b ''description'')
           \<and> price item \<noteq> None \<and> price item = reading (as_float cv) (b ''price'')
           \<and> tax item = reading (as_float cv) (b ''tax'')
           \<and> tags item \<noteq> None
           \<and> tags item = (if b ''tags'' = None then Some []
                           else reading (as_str_list cv) (b ''tags''))" .
qed

theorem create_item_fresh_witness:
  "violated_fields strict gadget_body = [] \<and> finite_floats strict gadget_body \<and>
   gadget_uuid \<notin> set (drawn [Create widget_body widget_uuid 10]) \<and>
   str_uuid gadget_uuid \<notin> fst ` set (run strict [Create widget_body widget_uuid 10] items_db0) \<and>
   post_items strict gadget_body gadget_uuid 15
       (run strict [Create widget_body widget_uuid 10] items_db0)
     = (Inr gadget, [(widget_id, widget), (gadget_id, gadget)])"
proof -
  have h1: "violated_fields strict gadget_body = []" by (rule violated_gadget)
  have h2: "finite_floats strict gadget_body"
    by (simp add: finite_floats_def gadget_body_def)
  have h0: "gadget_uuid \<notin> set (drawn [Create widget_body widget_uuid 10])"
    by (simp add: gadget_uuid_def widget_uuid_def)
  note f = create_item_fresh [OF h1 h2, where ?uuid4.0 = gadget_uuid
      and rs = "[Create widget_body widget_uuid 10]", THEN conjunct2, THEN conjunct1,
      rule_format, OF h0]
  note c = create_item_fresh [OF h1 h2, where ?uuid4.0 = gadget_uuid
      and rs = "[Create widget_body widget_uuid 10]" and current_time = 15,
      THEN conjunct2, THEN conjunct2, rule_format, OF f]
  from c obtain item where
    i: "post_items strict gadget_body gadget_uuid 15
          (run strict [Create widget_body widget_uuid 10] items_db0)
        = (Inr item, run strict [Create widget_body widget_uuid 10] items_db0 @ [(id' item, item)])"
      "id' item = str_uuid gadget_uuid" "created_at item = updated_at item"
      "created_at item = 15"
      "name item = reading (as_str strict) (gadget_body ''name'')"
      "description item = reading (as_str strict) (gadget_body ''description'')"
      "price item = reading (as_float strict) (gadget_body ''price'')"
      "tax item = reading (as_float strict) (gadget_body ''tax'')"
      "tags item = (if gadget_body ''tags'' = None then Some []
                    else reading (as_str_list strict) (gadget_body ''tags''))"
    by blast
  have "reading (as_str_list strict) (Some (JList (map JStr [''tool'']))) = Some [''tool'']"
    by (rule reading_typed_list)
  with i(2-) have "item = gadget"
    by (cases item) (simp add: gadget_def gadget_body_def str_gadget_uuid)
  with i(1) have "post_items strict gadget_body gadget_uuid 15
       (run strict [Create widget_body widget_uuid 10] items_db0)
     = (Inr gadget, [(widget_id, widget), (gadget_id, gadget)])"
    by (simp add: post_widget gadget_def)
  with h1 h2 h0 f show ?thesis by blast
qed









text \<open>
  Claim C7. The \<open>created_at\<close> of an item is the time of its creation, and after
  any sequence of update requests (to any ids, with any bodies, accepted or
  rejected) the item stored under its id still carries that value. This holds of
  the item a creation returns, of the item a creation stores whatever it then
  answers, and of every item held in any registry.
\<close>

theorem created_at_never_modified:
  "(post_items cv b uuid4 current_time items_db = (Inr item, db') \<longrightarrow>
      created_at item = current_time \<and>
      (\<exists>item'. map_of (run cv (updates us) db') (id' item) = Some item'
           \<and> created_at item' = current_time))
   \<and> (violated_fields cv b = [] \<longrightarrow>
      (\<exists>stored. map_of (snd (post_items cv b uuid4 current_time items_db)) (str_uuid uuid4)
                   = Some stored
         \<and> created_at stored = current_time
         \<and> (\<exists>item'. map_of (run cv (updates us) (snd (post_items cv b uuid4 current_time items_db)))
                        (str_uuid uuid4) = Some item'
              \<and> created_at item' = current_time)))
   \<and> (map_of d k = Some held \<longrightarrow>
      (\<exists>item'. map_of (run cv (updates us) d) k = Some item'
           \<and> created_at item' = created_at held))"
proof -
  have 1: "post_items cv b uuid4 current_time items_db = (Inr item, db') \<longrightarrow>
      created_at item = current_time \<and>
      (\<exists>item'. map_of (run cv (updates us) db') (id' item) = Some item'
           \<and> created_at item' = current_time)"
  proof
    assume "post_items cv b uuid4 current_time items_db = (Inr item, db')"
    from post_items_result [OF this]
    have "created_at item = current_time" "id' item = str_uuid uuid4"
      "map_of db' (str_uuid uuid4) = Some item"
      by blast+
    then show "created_at item = current_time \<and>
      (\<exists>item'. map_of (run cv (updates us) db') (id' item) = Some item'
           \<and> created_at item' = current_time)"
      using run_updates_created_at [of db' "id' item" item cv us] by auto
  qed
  have 2: "violated_fields cv b = [] \<longrightarrow>
      (\<exists>stored. map_of (snd (post_items cv b uuid4 current_time items_db)) (str_uuid uuid4)
                   = Some stored
         \<and> created_at stored = current_time
         \<and> (\<exists>item'. map_of (run cv (updates us) (snd (post_items cv b uuid4 current_time items_db)))
                        (str_uuid uuid4) = Some item'
              \<and> created_at item' = current_time))"
  proof
    assume "violated_fields cv b = []"
    from post_items_good [OF this, of uuid4 current_time items_db]
    obtain n ds p t g where r: "post_items cv b uuid4 current_time items_db
          = (response_Item
               \<lparr>name = Some n, description = ds, price = Some p, tax = t, tags = Some g,
                id' = str_uuid uuid4, created_at = current_time, updated_at = current_time\<rparr>,
             AList.update (str_uuid uuid4)
               \<lparr>name = Some n, description = ds, price = Some p, tax = t, tags = Some g,
                id' = str_uuid uuid4, created_at = current_time, updated_at = current_time\<rparr>
               items_db)"
      by blast
    let ?item = "\<lparr>name = Some n, description = ds, price = Some p, tax = t, tags = Some g,
                id' = str_uuid uuid4, created_at = current_time, updated_at = current_time\<rparr>"
    let ?db = "snd (post_items cv b uuid4 current_time items_db)"
    have m: "map_of ?db (str_uuid uuid4) = Some ?item"
      using r by (simp add: AList.update_conv')
    have c: "created_at ?item = current_time" by simp
    from run_updates_created_at [OF m, of cv us]
    have u: "\<exists>item'. map_of (run cv (updates us) ?db) (str_uuid uuid4) = Some item'
              \<and> created_at item' = current_time"
      by auto
    show "\<exists>stored. map_of ?db (str_uuid uuid4) = Some stored
         \<and> created_at stored = current_time
         \<and> (\<exists>item'. map_of (run cv (updates us) ?db) (str_uuid uuid4) = Some item'
              \<and> created_at item' = current_time)"
    proof (rule exI [of _ ?item], intro conjI)
      show "map_of ?db (str_uuid uuid4) = Some ?item" by (fact m)
      show "created_at ?item = current_time" by (fact c)
      show "\<exists>item'. map_of (run cv (updates us) ?db) (str_uuid uuid4) = Some item'
              \<and> created_at item' = current_time" by (fact u)
    qed
  qed
  have 3: "map_of d k = Some held \<longrightarrow>
      (\<exists>item'. map_of (run cv (updates us) d) k = Some item'
           \<and> created_at item' = created_at held)"
  proof
    assume "map_of d k = Some held"
    from run_updates_created_at [OF this, of cv us]
    show "\<exists>item'. map_of (run cv (updates us) d) k = Some item'
           \<and> created_at item' = created_at held"
      by blast
  qed
  from 1 2 3 show ?thesis by (intro conjI)
qed

theorem created_at_never_modified_witness:
  "post_items strict widget_body widget_uuid 10 items_db0 = (Inr widget, [(widget_id, widget)]) \<and>
   violated_fields strict widget_body = [] \<and>
   map_of [(widget_id, widget)] widget_id = Some widget \<and>
   (\<exists>item'. map_of (run strict (updates [(widget_id, price_patch, 20), (widget_id, null_name_patch, 30),
                                    (''nope'', price_patch, 40),
                                    (widget_id, negative_price_patch, 50)])
                        [(widget_id, widget)]) (id' widget) = Some item'
        \<and> created_at item' = 10) \<and>
   (\<exists>item'. map_of (run strict (updates [(widget_id, price_patch, 20), (widget_id, null_name_patch, 30)])
                        (snd (post_items strict widget_body widget_uuid 10 items_db0)))
                (str_uuid widget_uuid) = Some item'
        \<and> created_at item' = 10) \<and>
   (\<exists>item'. map_of (run strict (updates [(widget_id, null_name_patch, 30)]) [(widget_id, widget)])
                widget_id = Some item'
        \<and> created_at item' = created_at widget)"
proof -
  have p: "post_items strict widget_body widget_uuid 10 items_db0
      = (Inr widget, [(widget_id, widget)])"
    by (rule post_widget)
  have v: "violated_fields strict widget_body = []"
    by (rule violated_widget)
  have m: "map_of [(widget_id, widget)] widget_id = Some widget"
    by simp
  note a = created_at_never_modified [where cv = strict and b = widget_body
      and ?uuid4.0 = widget_uuid and current_time = 10 and items_db = items_db0
      and item = widget and db' = "[(widget_id, widget)]"
      and us = "[(widget_id, price_patch, 20), (widget_id, null_name_patch, 30),
                 (''nope'', price_patch, 40), (widget_id, negative_price_patch, 50)]",
      THEN conjunct1, rule_format, OF p]
  note b = created_at_never_modified [where cv = strict and b = widget_body
      and ?uuid4.0 = widget_uuid and current_time = 10 and items_db = items_db0
      and us = "[(widget_id, price_patch, 20), (widget_id, null_name_patch, 30)]",
      THEN conjunct2, THEN conjunct1, rule_format, OF v]
  note c = created_at_never_modified [where cv = strict and d = "[(widget_id, widget)]"
      and k = widget_id and held = widget and us = "[(widget_id, null_name_patch, 30)]",
      THEN conjunct2, THEN conjunct2, rule_format, OF m]
  from a have 1: "\<exists>item'. map_of (run strict (updates [(widget_id, price_patch, 20),
                                    (widget_id, null_name_patch, 30),
                                    (''nope'', price_patch, 40),
                                    (widget_id, negative_price_patch, 50)])
                        [(widget_id, widget)]) (id' widget) = Some item'
        \<and> created_at item' = 10"
    by blast
  from b have 2: "\<exists>item'. map_of (run strict (updates [(widget_id, price_patch, 20),
                        (widget_id, null_name_patch, 30)])
                        (snd (post_items strict widget_body widget_uuid 10 items_db0)))
                (str_uuid widget_uuid) = Some item'
        \<and> created_at item' = 10"
    by blast
  from p v m 1 2 c show ?thesis by (intro conjI)
qed


text \<open>
  Claim C8, at the input where the code departs from it. After the widget is
  created and then updated with the body \<^verbatim>\<open>{"name": null}\<close>, the registry holds
  one item, and listing fails: the list does not fit \<^verbatim>\<open>List[Item]\<close>, and the
  request is answered with status 500 instead of the item held.
\<close>

theorem read_items_fails_after_null_name:
  "run cv [Create widget_body widget_uuid 10, Update widget_id null_name_patch 20] items_db0
     = [(widget_id, widget\<lparr>name := None, updated_at := 20\<rparr>)]
   \<and> read_items [(widget_id, widget\<lparr>name := None, updated_at := 20\<rparr>)]
       = (Inl (UnhandledException (ValidationError [(''name'', none_not_allowed)])),
          [(widget_id, widget\<lparr>name := None, updated_at := 20\<rparr>)])
   \<and> status_code (UnhandledException (ValidationError [(''name'', none_not_allowed)])) = 500"
  by (simp add: post_widget put_null_name read_items_null_name)


text \<open>
  Claim C9. Every operation on an id leaves the entries of all other ids as they
  were: creation changes at most the entry of its new id and adds at most one
  entry, update and delete change only the entry of their id, and the reads
  change nothing.
\<close>

theorem others_unchanged:
  "(k \<noteq> str_uuid uuid4 \<longrightarrow>
      map_of (snd (post_items cv b uuid4 current_time items_db)) k = map_of items_db k)
   \<and> (k \<noteq> item_id \<longrightarrow>
      map_of (snd (put_items cv item_id b current_time items_db)) k = map_of items_db k
      \<and> map_of (snd (update_item item_id patch current_time items_db)) k = map_of items_db k
      \<and> map_of (snd (delete_item item_id items_db)) k = map_of items_db k)
   \<and> fst ` set (snd (post_items cv b uuid4 current_time items_db))
        \<subseteq> insert (str_uuid uuid4) (fst ` set items_db)
   \<and> length (snd (post_items cv b uuid4 current_time items_db)) \<le> Suc (length items_db)
   \<and> fst ` set (snd (put_items cv item_id b current_time items_db)) = fst ` set items_db
   \<and> fst ` set (snd (delete_item item_id items_db)) = fst ` set items_db - {item_id}
   \<and> snd (read_items items_db) = items_db
   \<and> snd (read_item item_id items_db) = items_db"
proof -
  have post: "map_of (snd (post_items cv b uuid4 current_time items_db)) k = map_of items_db k"
    if "k \<noteq> str_uuid uuid4"
    using that post_items_snd [of cv b uuid4 current_time items_db]
    by (auto simp: map_of_update_other)
  have put: "map_of (snd (put_items cv item_id b current_time items_db)) k = map_of items_db k"
    if "k \<noteq> item_id"
    using that put_items_snd [of cv item_id b current_time items_db]
    by (auto simp: map_of_update_other)
  have upd: "map_of (snd (update_item item_id patch current_time items_db)) k = map_of items_db k"
    if "k \<noteq> item_id"
    using that by (simp add: update_item_def Let_def map_of_update_other split: option.splits)
  have del: "map_of (snd (delete_item item_id items_db)) k = map_of items_db k"
    if "k \<noteq> item_id"
    using that delete_item_cases [of item_id items_db] by auto
  have keys_post: "fst ` set (snd (post_items cv b uuid4 current_time items_db))
        \<subseteq> insert (str_uuid uuid4) (fst ` set items_db)"
    using post_items_snd [of cv b uuid4 current_time items_db]
    by (elim disjE exE conjE) (simp_all add: AList.dom_update subset_insertI)
  have len_post: "length (snd (post_items cv b uuid4 current_time items_db))
      \<le> Suc (length items_db)"
    using post_items_snd [of cv b uuid4 current_time items_db]
    by (auto simp: length_alist_update)
  have keys_put: "fst ` set (snd (put_items cv item_id b current_time items_db))
      = fst ` set items_db"
    using put_items_snd [of cv item_id b current_time items_db]
    by (elim disjE exE conjE) (simp_all add: keys_update_present)
  have keys_del: "fst ` set (snd (delete_item item_id items_db)) = fst ` set items_db - {item_id}"
    using delete_item_cases [of item_id items_db]
    by (elim disjE exE conjE) (simp_all add: keys_delete map_of_eq_None_iff)
  show ?thesis
    using post put upd del keys_post len_post keys_put keys_del by (simp add: read_frame)
qed

theorem others_unchanged_witness:
  "widget_id \<noteq> str_uuid gadget_uuid \<and> widget_id \<noteq> gadget_id \<and>
   map_of (snd (post_items strict gadget_body gadget_uuid 15 [(widget_id, widget)])) widget_id
     = Some widget \<and>
   map_of (snd (put_items strict gadget_id price_patch 30
                  [(widget_id, widget), (gadget_id, gadget)])) widget_id = Some widget \<and>
   map_of (snd (put_items strict gadget_id null_name_patch 30
                  [(widget_id, widget), (gadget_id, gadget)])) widget_id = Some widget \<and>
   map_of (snd (delete_item gadget_id [(widget_id, widget), (gadget_id, gadget)])) widget_id
     = Some widget"
proof -
  have h1: "widget_id \<noteq> str_uuid gadget_uuid" by (simp add: str_gadget_uuid ids_differ)
  have h2: "widget_id \<noteq> gadget_id" by (rule ids_differ)
  note a = others_unchanged [where cv = strict and k = widget_id and ?uuid4.0 = gadget_uuid
      and b = gadget_body and current_time = 15 and items_db = "[(widget_id, widget)]"
      and item_id = gadget_id]
  note b = others_unchanged [where cv = strict and k = widget_id and ?uuid4.0 = gadget_uuid
      and b = price_patch and current_time = 30
      and items_db = "[(widget_id, widget), (gadget_id, gadget)]" and item_id = gadget_id]
  note c = others_unchanged [where cv = strict and k = widget_id and ?uuid4.0 = gadget_uuid
      and b = null_name_patch and current_time = 30
      and items_db = "[(widget_id, widget), (gadget_id, gadget)]" and item_id = gadget_id]
  have 1: "map_of (snd (post_items strict gadget_body gadget_uuid 15 [(widget_id, widget)]))
      widget_id = Some widget"
    using a h1 by simp
  have 2: "map_of (snd (put_items strict gadget_id price_patch 30
      [(widget_id, widget), (gadget_id, gadget)])) widget_id = Some widget"
    using b h2 by simp
  have 3: "map_of (snd (put_items strict gadget_id null_name_patch 30
      [(widget_id, widget), (gadget_id, gadget)])) widget_id = Some widget"
    using c h2 by simp
  have 4: "map_of (snd (delete_item gadget_id [(widget_id, widget), (gadget_id, gadget)]))
      widget_id = Some widget"
    using b h2 by simp
  from h1 h2 1 2 3 4 show ?thesis by (intro conjI)
qed


text \<open>
  Claim C10. A caller cannot set \<open>id\<close>, \<open>created_at\<close> or \<open>updated_at\<close> through
  a Create or Update body: every key of the body other than the five item fields
  is ignored, and in the stored and returned item the id is the generated one
  (kept by updates), \<open>created_at\<close> is the creation time (kept by updates) and
  \<open>updated_at\<close> is the time of the request. Whatever a request answers, it
  either leaves the registry as it was or stores an item with these values.
\<close>

theorem service_fields_not_settable:
  "post_items cv b uuid4 current_time items_db
     = post_items cv (b |` item_fields) uuid4 current_time items_db
   \<and> put_items cv item_id b current_time items_db
     = put_items cv item_id (b |` item_fields) current_time items_db
   \<and> (\<forall>item db'. post_items cv b uuid4 current_time items_db = (Inr item, db') \<longrightarrow>
        id' item = str_uuid uuid4 \<and> created_at item = current_time
        \<and> updated_at item = current_time \<and> map_of db' (str_uuid uuid4) = Some item)
   \<and> (\<forall>old new db'. map_of items_db item_id = Some old \<longrightarrow>
        put_items cv item_id b current_time items_db = (Inr new, db') \<longrightarrow>
        id' new = id' old \<and> created_at new = created_at old
        \<and> updated_at new = current_time \<and> map_of db' item_id = Some new)
   \<and> (snd (post_items cv b uuid4 current_time items_db) = items_db
       \<or> (\<exists>item. snd (post_items cv b uuid4 current_time items_db)
                     = AList.update (str_uuid uuid4) item items_db
             \<and> id' item = str_uuid uuid4 \<and> created_at item = current_time
             \<and> updated_at item = current_time))
   \<and> (snd (put_items cv item_id b current_time items_db) = items_db
       \<or> (\<exists>old new. map_of items_db item_id = Some old
             \<and> snd (put_items cv item_id b current_time items_db)
                 = AList.update item_id new items_db
             \<and> id' new = id' old \<and> created_at new = created_at old
             \<and> updated_at new = current_time))"
proof (intro conjI allI impI)
  show "post_items cv b uuid4 current_time items_db
     = post_items cv (b |` item_fields) uuid4 current_time items_db"
    by (rule post_items_restrict)
  show "put_items cv item_id b current_time items_db
     = put_items cv item_id (b |` item_fields) current_time items_db"
    by (rule put_items_restrict)
  show "snd (post_items cv b uuid4 current_time items_db) = items_db
       \<or> (\<exists>item. snd (post_items cv b uuid4 current_time items_db)
                     = AList.update (str_uuid uuid4) item items_db
             \<and> id' item = str_uuid uuid4 \<and> created_at item = current_time
             \<and> updated_at item = current_time)"
    by (rule post_items_snd)
  show "snd (put_items cv item_id b current_time items_db) = items_db
       \<or> (\<exists>old new. map_of items_db item_id = Some old
             \<and> snd (put_items cv item_id b current_time items_db)
                 = AList.update item_id new items_db
             \<and> id' new = id' old \<and> created_at new = created_at old
             \<and> updated_at new = current_time)"
    by (rule put_items_snd)
next
  fix item db'
  assume "post_items cv b uuid4 current_time items_db = (Inr item, db')"
  from post_items_result [OF this]
  show "id' item = str_uuid uuid4" "created_at item = current_time"
    "updated_at item = current_time" "map_of db' (str_uuid uuid4) = Some item"
    by blast+
next
  fix old new db'
  assume "map_of items_db item_id = Some old"
    "put_items cv item_id b current_time items_db = (Inr new, db')"
  from put_items_result [OF this]
  show "id' new = id' old" "created_at new = created_at old"
    "updated_at new = current_time" "map_of db' item_id = Some new"
    by blast+
qed

theorem service_fields_not_settable_witness:
  "post_items strict (widget_body(''id'' \<mapsto> JStr ''mine'', ''created_at'' \<mapsto> JInt 0,
                    ''color'' \<mapsto> JStr ''red'')) widget_uuid 10 items_db0
     = post_items strict ((widget_body(''id'' \<mapsto> JStr ''mine'', ''created_at'' \<mapsto> JInt 0,
                    ''color'' \<mapsto> JStr ''red'')) |` item_fields) widget_uuid 10 items_db0 \<and>
   post_items strict widget_body widget_uuid 10 items_db0 = (Inr widget, [(widget_id, widget)]) \<and>
   id' widget = str_uuid widget_uuid \<and> created_at widget = 10 \<and> updated_at widget = 10 \<and>
   map_of [(widget_id, widget)] widget_id = Some widget \<and>
   put_items strict widget_id price_patch 20 [(widget_id, widget)]
     = (Inr (widget\<lparr>price := Some (Finite 12.5), updated_at := 20\<rparr>),
        [(widget_id, widget\<lparr>price := Some (Finite 12.5), updated_at := 20\<rparr>)]) \<and>
   id' (widget\<lparr>price := Some (Finite 12.5), updated_at := 20\<rparr>) = id' widget \<and>
   created_at (widget\<lparr>price := Some (Finite 12.5), updated_at := 20\<rparr>) = created_at widget \<and>
   updated_at (widget\<lparr>price := Some (Finite 12.5), updated_at := 20\<rparr>) = 20"
proof -
  have h: "map_of [(widget_id, widget)] widget_id = Some widget" by simp
  have p: "post_items strict widget_body widget_uuid 10 items_db0
      = (Inr widget, [(widget_id, widget)])"
    by (rule post_widget)
  have q: "put_items strict widget_id price_patch 20 [(widget_id, widget)]
     = (Inr (widget\<lparr>price := Some (Finite 12.5), updated_at := 20\<rparr>),
        [(widget_id, widget\<lparr>price := Some (Finite 12.5), updated_at := 20\<rparr>)])"
    by (rule put_price_patch)
  note a = service_fields_not_settable [where cv = strict
      and b = "widget_body(''id'' \<mapsto> JStr ''mine'', ''created_at'' \<mapsto> JInt 0,
               ''color'' \<mapsto> JStr ''red'')"
      and ?uuid4.0 = widget_uuid and current_time = 10 and items_db = items_db0,
      THEN conjunct1]
  note b = service_fields_not_settable [where cv = strict and b = widget_body
      and ?uuid4.0 = widget_uuid and current_time = 10 and items_db = items_db0,
      THEN conjunct2, THEN conjunct2, THEN conjunct1, rule_format, OF p]
  note c = service_fields_not_settable [where cv = strict and b = price_patch
      and current_time = 20 and items_db = "[(widget_id, widget)]" and item_id = widget_id,
      THEN conjunct2, THEN conjunct2, THEN conjunct2, THEN conjunct1, rule_format, OF h q]
  from a p b h q c show ?thesis by blast
qed


end
